theory Spec2Isabelle
  imports Main "HOL-Library.AList" "HOL-Library.Word" "HOL-Library.Sublist"
begin

unbundle bit_operations_syntax

section \<open>The outbox queue (services/messageQueue.js)\<close>

text \<open>
  \<^verbatim>\<open>AmiXMessageQueue\<close> keeps its items in a JavaScript \<^verbatim>\<open>Map\<close> from message id to
  item object.  A \<^verbatim>\<open>Map\<close> iterates in insertion order, and \<^verbatim>\<open>set\<close> on a key that is
  already present keeps the key's position, which is what \<^const>\<open>AList.update\<close> does on an
  association list.  Every entry of the \<^verbatim>\<open>Map\<close> is an object of its own, so the key of an
  entry also serves as the identity of the object stored there.

  \<^verbatim>\<open>Date.now()\<close> and the outcome of a delivery are inputs from outside; they are passed
  in explicitly.
\<close>

datatype status = Pending | Sent | Failed

record 'm outbox_item =
  item_id :: string
  message :: 'm
  recipientId :: string
  timestamp :: int
  retryCount :: nat
  lastRetry :: "int option"
  status :: status
  priority :: string
  sentAt :: "int option"
  failureReason :: "string option"
  failedAt :: "int option"

record 'm queue =
  outbox :: "(string \<times> 'm outbox_item) list"
  networkStatus :: string

definition retryDelays :: "int list" where
  "retryDelays = [1000, 2000, 5000, 10000, 30000, 60000]"

definition maxRetries :: nat where
  "maxRetries = 5"

text \<open>\<^verbatim>\<open>getRetryDelay\<close>: the index is clamped to the last entry of the table.\<close>

definition getRetryDelay :: "nat \<Rightarrow> int" where
  "getRetryDelay rc = retryDelays ! (min rc (length retryDelays - 1))"

text \<open>
  \<^verbatim>\<open>markMessageSent\<close>, \<^verbatim>\<open>markMessageRetry\<close> and \<^verbatim>\<open>markMessageFailed\<close> look the item
  up by id and do nothing when it is absent.  Persisting the outbox and the analytics call
  are wrapped in the functions' own \<^verbatim>\<open>try/catch\<close> and do not touch the \<^verbatim>\<open>Map\<close>.
\<close>

definition markMessageSent :: "int \<Rightarrow> string \<Rightarrow> 'm queue \<Rightarrow> 'm queue" where
  "markMessageSent now messageId q =
     (case map_of (outbox q) messageId of
        None \<Rightarrow> q
      | Some it \<Rightarrow>
          q\<lparr>outbox := AList.update messageId (it\<lparr>status := Sent, sentAt := Some now\<rparr>) (outbox q)\<rparr>)"

definition markMessageRetry :: "int \<Rightarrow> string \<Rightarrow> 'm queue \<Rightarrow> 'm queue" where
  "markMessageRetry now messageId q =
     (case map_of (outbox q) messageId of
        None \<Rightarrow> q
      | Some it \<Rightarrow>
          q\<lparr>outbox := AList.update messageId
                 (it\<lparr>retryCount := retryCount it + 1, lastRetry := Some now\<rparr>) (outbox q)\<rparr>)"

definition markMessageFailed :: "int \<Rightarrow> string \<Rightarrow> string \<Rightarrow> 'm queue \<Rightarrow> 'm queue" where
  "markMessageFailed now messageId reason q =
     (case map_of (outbox q) messageId of
        None \<Rightarrow> q
      | Some it \<Rightarrow>
          q\<lparr>outbox := AList.update messageId
                 (it\<lparr>status := Failed, failureReason := Some reason, failedAt := Some now\<rparr>)
                 (outbox q)\<rparr>)"

text \<open>
  What one call of \<^verbatim>\<open>processMessage\<close> reads from outside: the clock at the back-off
  check, the clock when the outcome is stamped, and whether \<^verbatim>\<open>sendMessage\<close> reports
  success (\<^verbatim>\<open>sendMessage\<close> catches its own exceptions and returns \<^verbatim>\<open>false\<close>).
\<close>

record attempt_env =
  clockCheck :: int
  clockStamp :: int
  sendOk :: bool

text \<open>
  \<^verbatim>\<open>processMessage\<close>.  The second component of the result tells whether
  \<^verbatim>\<open>sendMessage\<close> was called.  \<^verbatim>\<open>if (outboxItem.lastRetry)\<close> is a truthiness test:
  \<^verbatim>\<open>null\<close> and \<^verbatim>\<open>0\<close> both skip the back-off check.  Nothing in the \<^verbatim>\<open>try\<close> block
  throws, so the \<^verbatim>\<open>catch\<close> branch is never taken.
\<close>

definition processMessage :: "attempt_env \<Rightarrow> 'm outbox_item \<Rightarrow> 'm queue \<Rightarrow> 'm queue \<times> bool" where
  "processMessage e outboxItem q =
     (if retryCount outboxItem \<ge> maxRetries
      then (markMessageFailed (clockStamp e) (item_id outboxItem) ''max_retries_exceeded'' q, False)
      else if (case lastRetry outboxItem of
                 None \<Rightarrow> False
               | Some t \<Rightarrow> t \<noteq> 0 \<and> clockCheck e - t < getRetryDelay (retryCount outboxItem))
      then (q, False)
      else if sendOk e
      then (markMessageSent (clockStamp e) (item_id outboxItem) q, True)
      else (markMessageRetry (clockStamp e) (item_id outboxItem) q, True))"

text \<open>
  The comparator of \<^verbatim>\<open>processQueue\<close>: \<^verbatim>\<open>priorityOrder[p] || 2\<close>.  \<^verbatim>\<open>priorityOrder\<close> is an
  object literal, so the lookup finds one of its three entries, or a property that every
  object inherits (for a priority such as \<^verbatim>\<open>'constructor'\<close>), or nothing; only in the
  last case does \<^verbatim>\<open>|| 2\<close> apply.  A difference that involves an inherited property is
  \<^verbatim>\<open>NaN\<close>, which the sort takes as 0; the comparator is then no longer an order, and
  what a sort makes of it depends on the engine.
\<close>

definition inheritedNames :: "string list" where
  "inheritedNames =
     [''constructor'', ''toString'', ''toLocaleString'', ''valueOf'', ''hasOwnProperty'',
      ''isPrototypeOf'', ''propertyIsEnumerable'', ''__proto__'', ''__defineGetter__'',
      ''__defineSetter__'', ''__lookupGetter__'', ''__lookupSetter__'']"

datatype lookup = Num int | Obj string

definition priorityOrder :: "string \<Rightarrow> lookup" where
  "priorityOrder p =
     (case map_of [(''high'', 3), (''normal'', 2), (''low'', 1)] p of
        Some n \<Rightarrow> Num n
      | None \<Rightarrow> if p \<in> set inheritedNames then Obj p else Num 2)"

definition compareItems :: "'m outbox_item \<Rightarrow> 'm outbox_item \<Rightarrow> int" where
  "compareItems a b =
     (let aPriority = priorityOrder (priority a); bPriority = priorityOrder (priority b)
      in if aPriority \<noteq> bPriority
         then (case (aPriority, bPriority) of (Num x, Num y) \<Rightarrow> y - x | _ \<Rightarrow> 0)
         else timestamp a - timestamp b)"

text \<open>
  \<^verbatim>\<open>Array.prototype.sort\<close> with a comparator is a stable sort: an insertion sort that
  puts an element before the first one it does not compare greater than.
\<close>

fun insertBy :: "('a \<Rightarrow> 'a \<Rightarrow> int) \<Rightarrow> 'a \<Rightarrow> 'a list \<Rightarrow> 'a list" where
  "insertBy c x [] = [x]"
| "insertBy c x (y # ys) = (if c x y \<le> 0 then x # y # ys else y # insertBy c x ys)"

definition sortBy :: "('a \<Rightarrow> 'a \<Rightarrow> int) \<Rightarrow> 'a list \<Rightarrow> 'a list" where
  "sortBy c xs = foldr (insertBy c) xs []"

text \<open>
  The loop of \<^verbatim>\<open>processQueue\<close> over the sorted snapshot.  The snapshot holds references
  to the item objects, so each item is read again from the outbox when its turn comes.
  The result lists the keys of the items for which delivery was attempted, in order.
\<close>

fun processAll :: "(string \<Rightarrow> attempt_env) \<Rightarrow> string list \<Rightarrow> 'm queue \<Rightarrow> 'm queue \<times> string list" where
  "processAll env [] q = (q, [])"
| "processAll env (k # ks) q =
     (case map_of (outbox q) k of
        None \<Rightarrow> processAll env ks q
      | Some it \<Rightarrow>
          (let (q1, attempted) = processMessage (env k) it q;
               (q2, rest) = processAll env ks q1
           in (q2, if attempted then k # rest else rest)))"

definition pendingMessages :: "'m queue \<Rightarrow> (string \<times> 'm outbox_item) list" where
  "pendingMessages q =
     sortBy (\<lambda>a b. compareItems (snd a) (snd b))
       (filter (\<lambda>entry. status (snd entry) = Pending) (outbox q))"

definition processQueue :: "(string \<Rightarrow> attempt_env) \<Rightarrow> 'm queue \<Rightarrow> 'm queue \<times> string list" where
  "processQueue env q =
     (if networkStatus q \<noteq> ''online'' then (q, [])
      else processAll env (map fst (pendingMessages q)) q)"

text \<open>\<^verbatim>\<open>handleAcknowledgment\<close> reads \<^verbatim>\<open>messageId\<close> from the acknowledgment and marks it sent.\<close>

record ack_message =
  ack_type :: string
  messageId :: string
  ack_timestamp :: int

definition handleAcknowledgment :: "int \<Rightarrow> ack_message \<Rightarrow> 'm queue \<Rightarrow> 'm queue" where
  "handleAcknowledgment now ackMessage q = markMessageSent now (messageId ackMessage) q"

text \<open>
  \<^verbatim>\<open>startProcessing\<close> runs \<^verbatim>\<open>processQueue\<close> on a timer, and the network listeners set
  \<^verbatim>\<open>networkStatus\<close> in between.  A run of ticks is given by the network status seen at each
  tick and what the tick reads from outside; the result collects the delivery attempts.
\<close>

fun ticks :: "(string \<times> (string \<Rightarrow> attempt_env)) list \<Rightarrow> 'm queue \<Rightarrow> 'm queue \<times> string list" where
  "ticks [] q = (q, [])"
| "ticks ((net, env) # ts) q =
     (let (q1, a1) = processQueue env (q\<lparr>networkStatus := net\<rparr>);
          (q2, a2) = ticks ts q1
      in (q2, a1 @ a2))"

text \<open>
  The order \<^verbatim>\<open>processQueue\<close> sorts by: higher tier first (high 3, low 1, everything else
  with normal at 2), then older first.  It is the comparator's order on the items whose
  priority does not name an inherited property.
\<close>

definition tier :: "'m outbox_item \<Rightarrow> int" where
  "tier a = (case priorityOrder (priority a) of Num n \<Rightarrow> n | Obj name \<Rightarrow> 2)"

definition goesBefore :: "'m outbox_item \<Rightarrow> 'm outbox_item \<Rightarrow> bool" where
  "goesBefore a b \<longleftrightarrow> tier a > tier b \<or> (tier a = tier b \<and> timestamp a \<le> timestamp b)"

definition plainPriorities :: "'m queue \<Rightarrow> bool" where
  "plainPriorities q \<longleftrightarrow> (\<forall>entry \<in> set (outbox q). priority (snd entry) \<notin> set inheritedNames)"

text \<open>
  What the three \<^verbatim>\<open>mark\<close> functions leave alone in an item: its id, priority and
  timestamp; the retry count never goes down and no item becomes pending again.
\<close>

definition itemFixed :: "'m outbox_item \<Rightarrow> 'm outbox_item \<Rightarrow> bool" where
  "itemFixed a b \<longleftrightarrow> item_id b = item_id a \<and> priority b = priority a \<and> timestamp b = timestamp a
      \<and> retryCount a \<le> retryCount b \<and> (status b = Pending \<longrightarrow> status a = Pending)"

definition evolves :: "'m queue \<Rightarrow> 'm queue \<Rightarrow> bool" where
  "evolves q q' \<longleftrightarrow>
     map fst (outbox q') = map fst (outbox q) \<and> networkStatus q' = networkStatus q \<and>
     (\<forall>k it. map_of (outbox q) k = Some it \<longrightarrow>
        (\<exists>it'. map_of (outbox q') k = Some it' \<and> itemFixed it it'))"

text \<open>A small outbox to run the queue on.\<close>

definition demoItem :: "string \<Rightarrow> string \<Rightarrow> int \<Rightarrow> nat \<Rightarrow> status \<Rightarrow> unit outbox_item" where
  "demoItem k p t rc st = \<lparr>item_id = k, message = (), recipientId = ''bob'', timestamp = t,
     retryCount = rc, lastRetry = None, status = st, priority = p, sentAt = None,
     failureReason = None, failedAt = None\<rparr>"

definition demoEnv :: "string \<Rightarrow> attempt_env" where
  "demoEnv k = \<lparr>clockCheck = 100, clockStamp = 101, sendOk = (k \<noteq> ''b'')\<rparr>"

definition demoQueue :: "unit queue" where
  "demoQueue = \<lparr>outbox = [(''a'', demoItem ''a'' ''low'' 1 0 Pending),
                          (''b'', demoItem ''b'' ''normal'' 2 5 Pending),
                          (''c'', demoItem ''c'' ''high'' 3 0 Pending),
                          (''d'', demoItem ''d'' ''normal'' 4 0 Failed),
                          (''e'', demoItem ''e'' ''high'' 5 0 Pending)],
                 networkStatus = ''online''\<rparr>"

text \<open>
  An outbox of three pending items, low, \<open>p\<close> and high, queued in that order, with the
  network online.
\<close>

definition tierQueue :: "string \<Rightarrow> unit queue" where
  "tierQueue p = \<lparr>outbox = [(''l'', demoItem ''l'' ''low'' 1 0 Pending),
                            (''x'', demoItem ''x'' p 2 0 Pending),
                            (''h'', demoItem ''h'' ''high'' 3 0 Pending)],
                   networkStatus = ''online''\<rparr>"

section \<open>Identity keys (AmiXCrypto.generateIdentityKeys)\<close>

record identity_key =
  keyId :: string
  privateKey :: string
  publicKey :: string
  createdAt :: int
  expiresAt :: int
  isCompromised :: bool

text \<open>A key set as \<^verbatim>\<open>generateIdentityKeys\<close> builds it.  A missing \<^verbatim>\<open>previous\<close> field
  reads as the empty list (\<^verbatim>\<open>previousKeys.previous || []\<close>).\<close>

record key_set =
  current :: identity_key
  previous :: "identity_key list"
  lastRotated :: int
  rotationInterval :: int
  nextRotation :: int

text \<open>
  What one call reads from outside: the clock, the fresh UUID, and the fresh key pair of
  \<^verbatim>\<open>box_keypair()\<close> in its base64 form.
\<close>

record keygen_env =
  kgNow :: int
  kgKeyId :: string
  kgSecretKey :: string
  kgPublicKey :: string

text \<open>
  \<^verbatim>\<open>generateIdentityKeys(previousKeys = null)\<close>.  The timer that the function arms when
  no previous key set is passed does not enter the returned value and is left out.
\<close>

definition generateIdentityKeys :: "keygen_env \<Rightarrow> key_set option \<Rightarrow> key_set" where
  "generateIdentityKeys e previousKeys =
     (let now = kgNow e;
          keys = \<lparr>current = \<lparr>keyId = kgKeyId e, privateKey = kgSecretKey e,
                               publicKey = kgPublicKey e, createdAt = now,
                               expiresAt = now + 365 * 24 * 60 * 60 * 1000,
                               isCompromised = False\<rparr>,
                   previous = (case previousKeys of
                                 None \<Rightarrow> []
                               | Some pk \<Rightarrow> current pk # previous pk),
                   lastRotated = now,
                   rotationInterval = 30 * 24 * 60 * 60 * 1000,
                   nextRotation = now + 30 * 24 * 60 * 60 * 1000\<rparr>
      in if length (previous keys) > 3 then keys\<lparr>previous := take 3 (previous keys)\<rparr> else keys)"

text \<open>A key is expired once the clock has passed \<^verbatim>\<open>expiresAt\<close> (\<^verbatim>\<open>getKeyStatus\<close>).\<close>

definition isExpired :: "int \<Rightarrow> identity_key \<Rightarrow> bool" where
  "isExpired now k \<longleftrightarrow> now > expiresAt k"

definition demoKey :: "string \<Rightarrow> int \<Rightarrow> bool \<Rightarrow> identity_key" where
  "demoKey k t c = \<lparr>keyId = k, privateKey = ''sk-'' @ k, publicKey = ''pk-'' @ k,
     createdAt = t, expiresAt = t + 365 * 24 * 60 * 60 * 1000, isCompromised = c\<rparr>"

definition demoKeygenEnv :: keygen_env where
  "demoKeygenEnv = \<lparr>kgNow = 40000000000000, kgKeyId = ''k9'', kgSecretKey = ''sk-k9'',
     kgPublicKey = ''pk-k9''\<rparr>"

definition demoKeySet :: key_set where
  "demoKeySet = \<lparr>current = demoKey ''k2'' 2000 True, previous = [demoKey ''k1'' 1000 False],
     lastRotated = 2000, rotationInterval = 2592000000, nextRotation = 2592002000\<rparr>"

section \<open>Message encryption (AmiXCrypto)\<close>

type_synonym byte = "8 word"
type_synonym bytes = "byte list"

text \<open>
  The cryptographic primitives come from libraries outside the repository (the NaCl
  binding, WebCrypto, expo-crypto and the base64 helpers); the model takes them as
  parameters.  A primitive that can throw returns \<open>Inl\<close> with the error message.
  \<^verbatim>\<open>addPadding\<close> is called by \<^verbatim>\<open>encryptMessage\<close> but is neither defined nor imported in
  the sources; it is a parameter too, and the reading in which the name is unbound is
  the one that returns \<open>Inl\<close>.
\<close>

record prims =
  box :: "bytes \<Rightarrow> bytes \<Rightarrow> string + bytes"
  secretbox :: "bytes \<Rightarrow> bytes \<Rightarrow> bytes \<Rightarrow> bytes"
  secretbox_open :: "bytes \<Rightarrow> bytes \<Rightarrow> bytes \<Rightarrow> bytes option"
  sign_open :: "bytes \<Rightarrow> bytes \<Rightarrow> bytes option"
  hmacSha256 :: "bytes \<Rightarrow> bytes \<Rightarrow> bytes"
  sha256 :: "bytes \<Rightarrow> bytes"
  digestString :: "string \<Rightarrow> string"
  encodeBase64 :: "bytes \<Rightarrow> string"
  decodeBase64 :: "string \<Rightarrow> string + bytes"
  addPadding :: "bytes \<Rightarrow> string + bytes"

text \<open>\<^verbatim>\<open>TextEncoder.encode\<close> on the strings of the model, whose characters are single bytes.\<close>

definition textEncode :: "string \<Rightarrow> bytes" where
  "textEncode s = map (\<lambda>c. of_nat (of_char c)) s"

text \<open>Numbers inside template strings: the decimal form, with a sign when negative.\<close>

fun showNat :: "nat \<Rightarrow> string" where
  "showNat n = (if n < 10 then [''0123456789'' ! n] else showNat (n div 10) @ [''0123456789'' ! (n mod 10)])"

definition showInt :: "int \<Rightarrow> string" where
  "showInt i = (if i < 0 then CHR ''-'' # showNat (nat (- i)) else showNat (nat i))"

text \<open>\<^verbatim>\<open>String.prototype.includes\<close>.\<close>

fun includesStr :: "string \<Rightarrow> string \<Rightarrow> bool" where
  "includesStr [] pat = (pat = [])"
| "includesStr (c # cs) pat = (prefix pat (c # cs) \<or> includesStr cs pat)"

text \<open>\<^verbatim>\<open>slice(start, end)\<close> of an array, with JavaScript's treatment of negative and
  oversized indices.\<close>

definition slice :: "'a list \<Rightarrow> int \<Rightarrow> int \<Rightarrow> 'a list" where
  "slice xs s e =
     (let n = int (length xs);
          s' = (if s < 0 then max (n + s) 0 else min s n);
          e' = (if e < 0 then max (n + e) 0 else min e n)
      in take (nat (e' - s')) (drop (nat s') xs))"

text \<open>
  Randomness is the sequence of draws still to come.  \<^verbatim>\<open>generateRandomBytes(n)\<close> takes
  the next \<open>n\<close> draws as bytes; \<^verbatim>\<open>Math.floor(Math.random() * k)\<close> is one draw reduced to
  the range below \<open>k\<close>.
\<close>

type_synonym rng = "nat \<Rightarrow> nat"

definition generateRandomBytes :: "nat \<Rightarrow> rng \<Rightarrow> bytes \<times> rng" where
  "generateRandomBytes n r = (map (\<lambda>i. of_nat (r i)) [0..<n], \<lambda>i. r (i + n))"

definition randomBelow :: "nat \<Rightarrow> rng \<Rightarrow> nat \<times> rng" where
  "randomBelow k r = (r 0 mod k, \<lambda>i. r (Suc i))"

definition HASH_LENGTH :: nat where
  "HASH_LENGTH = 32"

definition MAX_KEY_LENGTH :: nat where
  "MAX_KEY_LENGTH = 255 * HASH_LENGTH"

text \<open>\<^verbatim>\<open>Uint8Array.prototype.set(src, offset)\<close> throws when the source does not fit.\<close>

definition setAt :: "bytes \<Rightarrow> bytes \<Rightarrow> nat \<Rightarrow> string + bytes" where
  "setAt dst src off =
     (if off + length src > length dst then Inl ''offset is out of bounds''
      else Inr (take off dst @ src @ drop (off + length src) dst))"

text \<open>The expand loop of \<^verbatim>\<open>hkdf\<close>; the first numeric argument counts the blocks left.\<close>

fun hkdfExpand :: "prims \<Rightarrow> bytes \<Rightarrow> bytes \<Rightarrow> nat \<Rightarrow> nat \<Rightarrow> bytes \<Rightarrow> bytes \<Rightarrow> string + bytes" where
  "hkdfExpand P prk info 0 i prev okm = Inr okm"
| "hkdfExpand P prk info (Suc n) i prev okm =
     (let t = prev @ info @ [of_nat (i + 1)];
          prev' = hmacSha256 P prk t
      in case setAt okm prev' (i * HASH_LENGTH) of
           Inl err \<Rightarrow> Inl err
         | Inr okm' \<Rightarrow> hkdfExpand P prk info n (i + 1) prev' okm')"

definition hkdf :: "prims \<Rightarrow> bytes \<Rightarrow> bytes \<Rightarrow> bytes \<Rightarrow> nat \<Rightarrow> string + bytes" where
  "hkdf P inputKey salt info len =
     (if len > MAX_KEY_LENGTH
      then Inl (''Requested key length ('' @ showNat len @ '') is too large'')
      else
        let prk = hmacSha256 P salt inputKey;
            blocks = (len + HASH_LENGTH - 1) div HASH_LENGTH
        in case hkdfExpand P prk info blocks 0 [] (replicate (blocks * HASH_LENGTH) 0) of
             Inl err \<Rightarrow> Inl err
           | Inr okm \<Rightarrow> Inr (take len okm))"

text \<open>
  \<^verbatim>\<open>deriveKey(inputKey, info, length = 32)\<close> draws a fresh random salt on every call.
  The input key is a byte array, or a string that is encoded first.
\<close>

datatype key_material = KeyBytes bytes | KeyString string

definition keyBuffer :: "key_material \<Rightarrow> bytes" where
  "keyBuffer k = (case k of KeyBytes b \<Rightarrow> b | KeyString s \<Rightarrow> textEncode s)"

definition deriveKey :: "prims \<Rightarrow> key_material \<Rightarrow> string \<Rightarrow> nat \<Rightarrow> rng \<Rightarrow> (string + bytes) \<times> rng" where
  "deriveKey P inputKey info len r =
     (let (salt, r') = generateRandomBytes HASH_LENGTH r
      in (hkdf P (keyBuffer inputKey) salt (textEncode info) len, r'))"

text \<open>\<^verbatim>\<open>performKeyExchange\<close>: every failure is rethrown with a prefix.\<close>

record key_exchange =
  sharedSecret :: string
  kxTimestamp :: int

definition performKeyExchange ::
  "prims \<Rightarrow> string \<Rightarrow> string \<Rightarrow> int \<Rightarrow> rng \<Rightarrow> (string + key_exchange) \<times> rng" where
  "performKeyExchange P theirPublicKey ourPrivateKey now r =
     (case decodeBase64 P theirPublicKey of
        Inl err \<Rightarrow> (Inl (''Key exchange failed: '' @ err), r)
      | Inr theirKey \<Rightarrow>
     (case decodeBase64 P ourPrivateKey of
        Inl err \<Rightarrow> (Inl (''Key exchange failed: '' @ err), r)
      | Inr ourKey \<Rightarrow>
     (case box P theirKey ourKey of
        Inl err \<Rightarrow> (Inl (''Key exchange failed: '' @ err), r)
      | Inr secret \<Rightarrow>
     (case deriveKey P (KeyBytes secret) ''amix-x3dh'' 32 r of
        (Inl err, r') \<Rightarrow> (Inl (''Key exchange failed: '' @ err), r')
      | (Inr derivedKey, r') \<Rightarrow>
          (Inr \<lparr>sharedSecret = encodeBase64 P derivedKey, kxTimestamp = now\<rparr>, r')))))"

record ratchet_state =
  rootKey :: string
  chainKey :: string
  ourPrivateKey :: string
  theirPublicKey :: string
  messageCount :: int
  rsTimestamp :: int

definition createRatchetState ::
  "prims \<Rightarrow> string \<Rightarrow> string \<Rightarrow> string \<Rightarrow> int \<Rightarrow> rng \<Rightarrow> (string + ratchet_state) \<times> rng" where
  "createRatchetState P secret ourPriv theirPub now r =
     (case decodeBase64 P secret of
        Inl err \<Rightarrow> (Inl err, r)
      | Inr secretBytes \<Rightarrow>
     (case deriveKey P (KeyBytes secretBytes) ''amix-root'' 32 r of
        (Inl err, r1) \<Rightarrow> (Inl err, r1)
      | (Inr root, r1) \<Rightarrow>
     (case deriveKey P (KeyBytes root) ''amix-chain'' 32 r1 of
        (Inl err, r2) \<Rightarrow> (Inl err, r2)
      | (Inr chain, r2) \<Rightarrow>
          (Inr \<lparr>rootKey = encodeBase64 P root, chainKey = encodeBase64 P chain,
                 ourPrivateKey = ourPriv, theirPublicKey = theirPub, messageCount = 0,
                 rsTimestamp = now\<rparr>, r2))))"

text \<open>The padding configuration and \<^verbatim>\<open>generatePadding\<close>.\<close>

definition MIN_PADDING :: int where "MIN_PADDING = 0"
definition MAX_PADDING :: int where "MAX_PADDING = 255"
definition BLOCK_SIZE :: int where "BLOCK_SIZE = 1024"
definition MAX_MESSAGE_SIZE :: int where "MAX_MESSAGE_SIZE = 10 * 1024 * 1024"

definition generatePadding :: "nat \<Rightarrow> rng \<Rightarrow> bytes \<times> rng" where
  "generatePadding messageLength r =
     (let maxPadding = min MAX_PADDING (MAX_MESSAGE_SIZE - int messageLength)
      in if maxPadding \<le> 0 then ([], r)
         else
           let (d, r1) = randomBelow (nat (maxPadding - MIN_PADDING + 1)) r;
               paddingSize = MIN_PADDING + int d;
               alignedPadding =
                 ((int messageLength + paddingSize + BLOCK_SIZE - 1) div BLOCK_SIZE) * BLOCK_SIZE
                   - int messageLength
           in generateRandomBytes (nat alignedPadding) r1)"

datatype plaintext = Text string | Raw bytes

definition messageBytes :: "plaintext \<Rightarrow> bytes" where
  "messageBytes m = (case m of Text s \<Rightarrow> textEncode s | Raw b \<Rightarrow> b)"

record crypt_options =
  aad :: "bytes option"

record envelope =
  ciphertext :: string
  nonce :: string
  envAad :: string
  envMessageCount :: "int option"
  envTimestamp :: int
  envVersion :: "string option"

text \<open>
  \<^verbatim>\<open>encryptMessage\<close>.  The call of \<^verbatim>\<open>addPadding\<close> stands before the \<^verbatim>\<open>try\<close>, so its
  failure is not rewrapped; the array it fills is shadowed inside the \<^verbatim>\<open>try\<close> and never
  read.  The ratchet state is changed only on success.
\<close>

definition encryptMessage ::
  "prims \<Rightarrow> plaintext \<Rightarrow> ratchet_state \<Rightarrow> crypt_options \<Rightarrow> int \<Rightarrow> rng
   \<Rightarrow> (string + envelope \<times> ratchet_state) \<times> rng" where
  "encryptMessage P plain st options now r =
     (case addPadding P (messageBytes plain) of
        Inl err \<Rightarrow> (Inl err, r)
      | Inr messageWithPadding \<Rightarrow>
          let msg = messageBytes plain;
              (padding, r1) = generatePadding (length msg) r;
              paddedMessage =
                [of_nat (length padding) AND 0xFF,
                 if length msg > 255 then 255 else of_nat (length msg)] @ msg @ padding;
              (mk, r2) = deriveKey P (KeyString (chainKey st))
                           (''amix-msg-'' @ showInt (messageCount st)) 32 r1;
              (nk, r3) = deriveKey P (KeyString (chainKey st)) ''amix-next-chain'' 32 r2
          in case mk of
               Inl err \<Rightarrow> (Inl (''Message encryption failed: '' @ err), r3)
             | Inr messageKey \<Rightarrow>
            (case nk of
               Inl err \<Rightarrow> (Inl (''Message encryption failed: '' @ err), r3)
             | Inr nextChainKey \<Rightarrow>
                 let (nonceBytes, r4) = generateRandomBytes 24 r3;
                     encrypted = secretbox P paddedMessage nonceBytes messageKey;
                     aadHash = sha256 P (case aad options of None \<Rightarrow> [] | Some a \<Rightarrow> a);
                     st' = st\<lparr>chainKey := encodeBase64 P nextChainKey,
                               messageCount := messageCount st + 1\<rparr>
                 in (Inr (\<lparr>ciphertext = encodeBase64 P encrypted,
                            nonce = encodeBase64 P nonceBytes,
                            envAad = encodeBase64 P aadHash,
                            envMessageCount = Some (messageCount st'),
                            envTimestamp = now,
                            envVersion = Some ''xchacha20poly1305-1.0.0-padded''\<rparr>, st'),
                     r4)))"

text \<open>
  Removing the padding in \<^verbatim>\<open>decryptMessage\<close>.  With fewer than two bytes the length byte
  reads as \<^verbatim>\<open>undefined\<close> and the slice is empty.
\<close>

definition unpad :: "bytes \<Rightarrow> bytes" where
  "unpad decrypted =
     (if length decrypted < 2 then []
      else
        let paddingLength = int (unat (decrypted ! 0));
            messageLength0 = int (unat (decrypted ! 1));
            messageLength = (if messageLength0 = 255
                             then int (length decrypted) - paddingLength - 2
                             else messageLength0)
        in slice decrypted 2 (2 + messageLength))"

text \<open>
  \<^verbatim>\<open>decryptMessage\<close>.  In the version test a missing or empty version is falsy.  The
  function reads the ratchet state and does not change it.  An envelope without a
  \<^verbatim>\<open>messageCount\<close> gives the label \<^verbatim>\<open>amix-msg-NaN\<close>.
\<close>

definition decryptMessage ::
  "prims \<Rightarrow> envelope \<Rightarrow> ratchet_state \<Rightarrow> crypt_options \<Rightarrow> rng \<Rightarrow> (string + bytes) \<times> rng" where
  "decryptMessage P encryptedData st options r =
     (if (case envVersion encryptedData of
            None \<Rightarrow> True
          | Some v \<Rightarrow> v = [] \<or> (v \<noteq> ''xchacha20poly1305-1.0.0'' \<and> \<not> includesStr v ''padded''))
      then (Inl (''Message decryption failed: '' @ ''Unsupported protocol version''), r)
      else
        case deriveKey P (KeyString (chainKey st))
               (''amix-msg-'' @
                (case envMessageCount encryptedData of
                   None \<Rightarrow> ''NaN''
                 | Some n \<Rightarrow> showInt (n - 1))) 32 r of
          (Inl err, r1) \<Rightarrow> (Inl (''Message decryption failed: '' @ err), r1)
        | (Inr messageKey, r1) \<Rightarrow>
        (case decodeBase64 P (nonce encryptedData) of
           Inl err \<Rightarrow> (Inl (''Message decryption failed: '' @ err), r1)
         | Inr nonceBytes \<Rightarrow>
        (case decodeBase64 P (ciphertext encryptedData) of
           Inl err \<Rightarrow> (Inl (''Message decryption failed: '' @ err), r1)
         | Inr ciphertextBytes \<Rightarrow>
             if (case aad options of
                   None \<Rightarrow> False
                 | Some a \<Rightarrow> encodeBase64 P (sha256 P a) \<noteq> envAad encryptedData)
             then (Inl (''Message decryption failed: '' @ ''Invalid additional authenticated data''), r1)
             else
               (case secretbox_open P ciphertextBytes nonceBytes messageKey of
                  None \<Rightarrow>
                    (Inl (''Message decryption failed: '' @
                          ''Decryption failed - invalid ciphertext or key''), r1)
                | Some decrypted \<Rightarrow>
                    if includesStr (the (envVersion encryptedData)) ''padded''
                    then (Inr (unpad decrypted), r1)
                    else (Inr decrypted, r1)))))"

text \<open>
  \<^verbatim>\<open>generateSafetyNumber\<close>: the first 12 characters of the digest in groups of four,
  upper-cased.  \<^verbatim>\<open>match\<close> gives \<^verbatim>\<open>null\<close> on the empty string and \<^verbatim>\<open>join\<close> then throws.
\<close>

fun chunks4 :: "string \<Rightarrow> string list" where
  "chunks4 (a # b # c # d # rest) = [a, b, c, d] # (if rest = [] then [] else chunks4 rest)"
| "chunks4 s = [s]"

fun joinWith :: "string \<Rightarrow> string list \<Rightarrow> string" where
  "joinWith sep [] = []"
| "joinWith sep [p] = p"
| "joinWith sep (p # q # ps) = p @ sep @ joinWith sep (q # ps)"

definition toUpperCase :: "string \<Rightarrow> string" where
  "toUpperCase s =
     map (\<lambda>c. case map_of (zip ''abcdefghijklmnopqrstuvwxyz'' ''ABCDEFGHIJKLMNOPQRSTUVWXYZ'') c of
                None \<Rightarrow> c
              | Some u \<Rightarrow> u) s"

definition generateSafetyNumber :: "prims \<Rightarrow> string \<Rightarrow> string \<Rightarrow> string + string" where
  "generateSafetyNumber P publicKey1 publicKey2 =
     (let combined = publicKey1 @ publicKey2;
          digest = digestString P combined;
          head12 = take 12 digest
      in if head12 = [] then Inl ''Cannot read properties of null''
         else Inr (toUpperCase (joinWith '' '' (chunks4 head12))))"

text \<open>\<^verbatim>\<open>bytesToHex\<close>: two lower-case hexadecimal digits for each byte.\<close>

definition hexDigit :: "nat \<Rightarrow> char" where
  "hexDigit n = ''0123456789abcdef'' ! n"

definition bytesToHex :: "bytes \<Rightarrow> string" where
  "bytesToHex bs = concat (map (\<lambda>b. [hexDigit (unat b div 16), hexDigit (unat b mod 16)]) bs)"

text \<open>
  The web client's \<^verbatim>\<open>generateSafetyNumber\<close> (apps/web/src/utils/crypto.js) takes the two
  keys in their \<^verbatim>\<open>JSON.stringify\<close> form, spells the digest in hexadecimal the same way
  and keeps the first 8 digits.
\<close>

definition generateSafetyNumberWeb :: "prims \<Rightarrow> string \<Rightarrow> string \<Rightarrow> string" where
  "generateSafetyNumberWeb P publicKeyJwk1 publicKeyJwk2 =
     (let combined = publicKeyJwk1 @ publicKeyJwk2;
          hashHex = bytesToHex (sha256 P (textEncode combined))
      in toUpperCase (take 8 hashHex))"

text \<open>
  A small executable instance of the primitives, for running the model on concrete
  inputs.  It keeps what the callers rely on and nothing else: the keyed hash depends on
  every byte of key and data it is given (up to its 32 bytes of output), opening a box
  succeeds exactly with the key and nonce that sealed it, a signed message opens under
  the public key it starts with, the key agreement gives both sides the same bytes, and
  the text encoding (hexadecimal here) can be undone and rejects other text.
\<close>

definition byteAt :: "bytes \<Rightarrow> nat \<Rightarrow> byte" where
  "byteAt xs i = (if i < length xs then xs ! i else 0)"

definition refMac :: "bytes \<Rightarrow> bytes \<Rightarrow> bytes" where
  "refMac k d = map (\<lambda>i. byteAt k i + 2 * byteAt d i + 1) [0..<32]"

definition hexValue :: "char \<Rightarrow> nat option" where
  "hexValue c = map_of (zip ''0123456789abcdef'' [0..<16]) c"

fun fromHex :: "string \<Rightarrow> string + bytes" where
  "fromHex [] = Inr []"
| "fromHex [c] = Inl ''invalid encoding''"
| "fromHex (c # d # cs) =
     (case (hexValue c, hexValue d) of
        (Some h, Some l) \<Rightarrow>
          (case fromHex cs of Inl err \<Rightarrow> Inl err | Inr bs \<Rightarrow> Inr (of_nat (16 * h + l) # bs))
      | _ \<Rightarrow> Inl ''invalid encoding'')"

definition refPrims :: prims where
  "refPrims =
     \<lparr>box = (\<lambda>theirKey ourKey. Inr (map (\<lambda>(p, s). p ^ unat s) (zip theirKey ourKey))),
      secretbox = (\<lambda>m n k. k @ n @ m),
      secretbox_open =
        (\<lambda>c n k. if prefix (k @ n) c then Some (drop (length k + length n) c) else None),
      sign_open = (\<lambda>signed pk. if prefix pk signed then Some (drop (length pk) signed) else None),
      hmacSha256 = refMac,
      sha256 = refMac [],
      digestString = (\<lambda>s. bytesToHex (refMac [] (textEncode s))),
      encodeBase64 = bytesToHex,
      decodeBase64 = fromHex,
      addPadding = Inr\<rparr>"

text \<open>Key pairs for \<^const>\<open>refPrims\<close>: each byte of the public key is 3 to the power of the
  private byte.\<close>

definition refPublic :: "bytes \<Rightarrow> bytes" where
  "refPublic sk = map (\<lambda>s. 3 ^ unat s) sk"

text \<open>The SHA-256 digests of \<^verbatim>\<open>'AB'\<close> and \<^verbatim>\<open>'BA'\<close> in hexadecimal, as a table.\<close>

definition sha256Table :: "string \<Rightarrow> string" where
  "sha256Table s =
     (if s = ''AB'' then ''38164fbd17603d73f696b8b4d72664d735bb6a7c88577687fd2ae33fd6964153''
      else if s = ''BA'' then ''296d71a7f66e75b751c597094536329dcf2cf484f83e475d91f7aea1ff4c9738''
      else [])"

text \<open>Two sequences of random draws, and inputs built on them.\<close>

definition rngA :: rng where "rngA i = i"
definition rngB :: rng where "rngB i = 2 * i + 1"

definition demoState :: ratchet_state where
  "demoState = \<lparr>rootKey = ''00'', chainKey = ''0102'', ourPrivateKey = ''0305'',
      theirPublicKey = ''0951'', messageCount = 0, rsTimestamp = 0\<rparr>"

definition demoOptions :: crypt_options where
  "demoOptions = \<lparr>aad = None\<rparr>"

definition bogusEnvelope :: envelope where
  "bogusEnvelope =
     \<lparr>ciphertext = bytesToHex (secretbox refPrims [0, 2, 104, 105] [9, 9]
                       (projr (fst (deriveKey refPrims (KeyString ''0102'') ''amix-msg-0'' 32 rngB)))),
      nonce = ''0909'', envAad = [], envMessageCount = Some 1, envTimestamp = 0,
      envVersion = Some ''v9-padded''\<rparr>"

text \<open>The key that \<^const>\<open>deriveKey\<close> returns with \<^const>\<open>refPrims\<close>, and a session and an
  envelope made with them.\<close>

definition refKey :: "key_material \<Rightarrow> string \<Rightarrow> rng \<Rightarrow> bytes" where
  "refKey km info r =
     refMac (refMac (map (\<lambda>i. of_nat (r i)) [0..<32]) (keyBuffer km)) (textEncode info @ [1])"

definition demoSession :: "(string + ratchet_state) \<times> rng" where
  "demoSession = createRatchetState refPrims ''d991'' ''0305'' ''0951'' 0 rngA"

definition demoSealed :: "(string + envelope \<times> ratchet_state) \<times> rng" where
  "demoSealed =
     encryptMessage refPrims (Text ''hi'') (projr (fst demoSession)) demoOptions 5 (snd demoSession)"

section \<open>Group sessions (utils/groupCrypto.js)\<close>

record member =
  memberPublicKey :: string
  memberPrivateKey :: string
  isAdmin :: bool

record signing_pair =
  signPublicKey :: string
  signPrivateKey :: string

text \<open>
  The group state.  \<^verbatim>\<open>members\<close> is an object keyed by member id.  \<^verbatim>\<open>rotationTimer\<close> is
  the pending \<^verbatim>\<open>setTimeout\<close>, recorded by its delay; the timer's callback
  \<^verbatim>\<open>_rotateGroupKeys\<close> runs only when the delay has passed, after the call that armed it
  has returned.
\<close>

record group_state =
  groupId :: string
  members :: "(string \<times> member) list"
  signingKeyPair :: signing_pair
  encryptionKeyPair :: key_set
  keyRotationInterval :: int
  nextKeyRotation :: int
  gsCreatedAt :: int
  gsUpdatedAt :: int
  lastKeyRotation :: int
  gsVersion :: string
  rotationTimer :: "int option"

text \<open>
  Persistence is an outside collaborator with get and put; the model keeps the groups by
  group id and the ratchet sessions by (group, sender, recipient).
\<close>

record store =
  groups :: "(string \<times> group_state) list"
  ratchetStates :: "((string \<times> string \<times> string) \<times> ratchet_state) list"

definition getGroup :: "string \<Rightarrow> store \<Rightarrow> group_state option" where
  "getGroup gid st = map_of (groups st) gid"

definition storeGroup :: "group_state \<Rightarrow> store \<Rightarrow> store" where
  "storeGroup g st = st\<lparr>groups := AList.update (groupId g) g (groups st)\<rparr>"

definition getRatchetState :: "string \<Rightarrow> string \<Rightarrow> string \<Rightarrow> store \<Rightarrow> ratchet_state option" where
  "getRatchetState gid senderId rid st = map_of (ratchetStates st) (gid, senderId, rid)"

definition storeRatchetState :: "string \<Rightarrow> string \<Rightarrow> string \<Rightarrow> ratchet_state \<Rightarrow> store \<Rightarrow> store" where
  "storeRatchetState gid senderId rid rs st =
     st\<lparr>ratchetStates := AList.update (gid, senderId, rid) rs (ratchetStates st)\<rparr>"

text \<open>
  \<^verbatim>\<open>_incrementVersion\<close>: \<^verbatim>\<open>version.split('.').map(Number)\<close>, \<^verbatim>\<open>++\<close> on the last part,
  \<^verbatim>\<open>join('.')\<close>.  The three operations on JavaScript numbers that it uses (\<^verbatim>\<open>Number\<close> of
  a string, \<^verbatim>\<open>++\<close>, and the conversion back to a string that \<^verbatim>\<open>join\<close> applies) belong
  to the language; they are taken as given, over any type \<open>'n\<close> of numbers.
  \<^verbatim>\<open>split\<close> never returns an empty array, so the last part always exists.
\<close>

record 'n number_prims =
  toNum :: "string \<Rightarrow> 'n"
  plusOne :: "'n \<Rightarrow> 'n"
  numString :: "'n \<Rightarrow> string"

fun splitDots :: "string \<Rightarrow> string list" where
  "splitDots [] = [[]]"
| "splitDots (c # cs) =
     (if c = CHR ''.'' then [] # splitDots cs
      else (case splitDots cs of [] \<Rightarrow> [[c]] | p # ps \<Rightarrow> (c # p) # ps))"

definition incrementVersion :: "'n number_prims \<Rightarrow> string \<Rightarrow> string" where
  "incrementVersion N v =
     (let parts = map (toNum N) (splitDots v);
          parts' = parts[length parts - 1 := plusOne N (parts ! (length parts - 1))]
      in joinWith ''.'' (map (numString N) parts'))"

text \<open>
  JavaScript numbers are exact on the whole numbers below \<open>2\<^sup>5\<^sup>3\<close>: a string of decimal
  digits with such a value (leading zeros allowed, the empty string being 0) is read as that
  value, \<^verbatim>\<open>++\<close> gives the next whole number, and both are printed in plain decimal.
  \<open>exactDecimals\<close> says this of the given operations; nothing is said about larger values or
  about the other notations that \<^verbatim>\<open>Number\<close> reads (signs, blanks, exponents, hexadecimal).
\<close>

definition digitValue :: "char \<Rightarrow> nat option" where
  "digitValue c = map_of (zip ''0123456789'' [0..<10]) c"

fun parseDigits :: "nat \<Rightarrow> string \<Rightarrow> nat option" where
  "parseDigits acc [] = Some acc"
| "parseDigits acc (c # cs) =
     (case digitValue c of None \<Rightarrow> None | Some d \<Rightarrow> parseDigits (10 * acc + d) cs)"

definition exactDecimals :: "'n number_prims \<Rightarrow> bool" where
  "exactDecimals N \<longleftrightarrow>
     (\<forall>s n. parseDigits 0 s = Some n \<and> n < 2 ^ 53 \<longrightarrow>
        numString N (toNum N s) = showNat n \<and>
        numString N (plusOne N (toNum N s)) = showNat (Suc n))"

text \<open>
  Numbers to run the group functions with: the whole numbers, read from strings of decimal
  digits, and \<^verbatim>\<open>NaN\<close> (written \<open>None\<close>) for every other string.
\<close>

definition decimalNumbers :: "nat option number_prims" where
  "decimalNumbers =
     \<lparr>toNum = parseDigits 0,
      plusOne = map_option Suc,
      numString = (\<lambda>n. case n of None \<Rightarrow> ''NaN'' | Some k \<Rightarrow> showNat k)\<rparr>"

text \<open>\<^verbatim>\<open>_scheduleKeyRotation\<close> replaces the pending timer by one for the time that is left
  until \<^verbatim>\<open>nextKeyRotation\<close>.\<close>

definition scheduleKeyRotation :: "int \<Rightarrow> group_state \<Rightarrow> group_state" where
  "scheduleKeyRotation now g = g\<lparr>rotationTimer := Some (max 0 (nextKeyRotation g - now))\<rparr>"

record user =
  userId :: string

text \<open>
  \<^verbatim>\<open>groupState.members[id]\<close> reads a property of a plain object (\<^verbatim>\<open>members: {}\<close> in
  \<^verbatim>\<open>createGroup\<close>, and a plain object again when the state comes back from storage): it
  finds the member stored under that id, or else a property that every object inherits
  (for an id such as \<^verbatim>\<open>'toString'\<close>), or else \<^verbatim>\<open>undefined\<close>.
\<close>

datatype 'a property = Own 'a | Inherited string | Undefined

definition getProperty :: "(string \<times> 'a) list \<Rightarrow> string \<Rightarrow> 'a property" where
  "getProperty obj name =
     (case map_of obj name of
        Some v \<Rightarrow> Own v
      | None \<Rightarrow> if name \<in> set inheritedNames then Inherited name else Undefined)"

text \<open>
  \<^verbatim>\<open>removeMember\<close>.  The two clock readings are the one stamped into \<^verbatim>\<open>updatedAt\<close> and
  the one \<^verbatim>\<open>_scheduleKeyRotation\<close> takes.  Every \<^verbatim>\<open>throw\<close> happens before the group
  state is touched.

  \<^verbatim>\<open>members[remover.id]?.isAdmin\<close> is the member's flag for a stored member and
  \<^verbatim>\<open>undefined\<close> otherwise (an inherited function or object has no \<^verbatim>\<open>isAdmin\<close>).
  \<^verbatim>\<open>!members[memberIdToRemove]\<close> is a truthiness test: a stored member passes it, and so
  does an inherited property.  \<^verbatim>\<open>delete\<close> removes a stored entry and does nothing when
  there is none.
\<close>

definition removeMember ::
  "'n number_prims \<Rightarrow> int \<Rightarrow> int \<Rightarrow> string \<Rightarrow> user \<Rightarrow> string \<Rightarrow> store
   \<Rightarrow> (string + group_state) \<times> store" where
  "removeMember N t1 t2 gid remover memberIdToRemove st =
     (case getGroup gid st of
        None \<Rightarrow> (Inl ''Group not found'', st)
      | Some g \<Rightarrow>
          if \<not> (case getProperty (members g) (userId remover) of
                   Own m \<Rightarrow> isAdmin m | Inherited name \<Rightarrow> False | Undefined \<Rightarrow> False)
          then (Inl ''Only admins can remove members'', st)
          else if getProperty (members g) memberIdToRemove = Undefined
          then (Inl ''Member not found in group'', st)
          else
            let g1 = g\<lparr>members := AList.delete memberIdToRemove (members g)\<rparr>;
                g2 = g1\<lparr>gsVersion := incrementVersion N (gsVersion g1), gsUpdatedAt := t1\<rparr>;
                g3 = scheduleKeyRotation t2 g2
            in (Inr g3, storeGroup g3 st))"

definition demoMember :: "string \<Rightarrow> bool \<Rightarrow> member" where
  "demoMember k a = \<lparr>memberPublicKey = k, memberPrivateKey = k, isAdmin = a\<rparr>"

definition demoGroup :: group_state where
  "demoGroup =
     \<lparr>groupId = ''g1'',
      members = [(''alice'', demoMember ''0305'' True), (''bob'', demoMember ''0204'' False),
                 (''carol'', demoMember ''0607'' False)],
      signingKeyPair = \<lparr>signPublicKey = ''spk'', signPrivateKey = ''ssk''\<rparr>,
      encryptionKeyPair = generateIdentityKeys demoKeygenEnv None,
      keyRotationInterval = 604800000, nextKeyRotation = 604800100, gsCreatedAt = 100,
      gsUpdatedAt = 100, lastKeyRotation = 100, gsVersion = ''1.0.9'', rotationTimer = Some 604800000\<rparr>"

definition demoStore :: store where
  "demoStore =
     \<lparr>groups = [(''g1'', demoGroup)],
      ratchetStates = [((''g1'', ''alice'', ''bob''), demoState), ((''g1'', ''bob'', ''alice''), demoState)]\<rparr>"

text \<open>
  \<^verbatim>\<open>verifyMessageIntegrity\<close> (AmiXCrypto): the signature is put in front of the message
  and opened with the public key; any failure on the way gives \<^verbatim>\<open>false\<close>.
\<close>

definition verifyMessageIntegrity :: "prims \<Rightarrow> string \<Rightarrow> string \<Rightarrow> string \<Rightarrow> bool" where
  "verifyMessageIntegrity P msg signature pk =
     (case decodeBase64 P signature of
        Inl err \<Rightarrow> False
      | Inr signatureBytes \<Rightarrow>
     (case decodeBase64 P pk of
        Inl err \<Rightarrow> False
      | Inr publicKeyBytes \<Rightarrow>
          sign_open P (signatureBytes @ textEncode msg) publicKeyBytes \<noteq> None))"

text \<open>
  A group message as \<^verbatim>\<open>encryptGroupMessage\<close> returns it: one envelope per recipient.
  \<^verbatim>\<open>decryptGroupMessage\<close> reads \<^verbatim>\<open>messageCount\<close> from the group message itself, where it
  may be missing.
\<close>

record group_message =
  gmMessageId :: string
  gmSenderId :: string
  gmTimestamp :: int
  gmType :: string
  encryptedMessages :: "(string \<times> envelope) list"
  gmSignature :: string
  gmMessageCount :: "int option"

record group_options =
  skipSignatureVerification :: bool
  isRetry :: bool

text \<open>\<^verbatim>\<open>JSON.stringify\<close> of the authenticated data, and of the authenticated data together
  with the hash of the decrypted text, are taken as given functions.\<close>

record json_prims =
  aadJson :: "string \<Rightarrow> group_message \<Rightarrow> string"
  signedJson :: "string \<Rightarrow> group_message \<Rightarrow> bytes \<Rightarrow> string"

text \<open>
  What the group functions work on: the store, the randomness still to come, and a count
  of the calls to \<^verbatim>\<open>_recoverRatchetState\<close>, kept to state how often recovery runs.
\<close>

record world =
  wStore :: store
  wRng :: rng
  wRecoveries :: nat

text \<open>
  \<^verbatim>\<open>_recoverRatchetState\<close>: a fresh key exchange between the sender's public and the
  recipient's private key, and a new ratchet state stored for the pair.
\<close>

definition recoverRatchetState ::
  "prims \<Rightarrow> int \<Rightarrow> string \<Rightarrow> string \<Rightarrow> string \<Rightarrow> world \<Rightarrow> (string + ratchet_state) \<times> world" where
  "recoverRatchetState P now gid senderId rid w0 =
     (let w = w0\<lparr>wRecoveries := Suc (wRecoveries w0)\<rparr>
      in case getGroup gid (wStore w) of
           None \<Rightarrow> (Inl ''Group not found'', w)
         | Some g \<Rightarrow>
        (case map_of (members g) senderId of
           None \<Rightarrow> (Inl ''Cannot read properties of undefined'', w)
         | Some sm \<Rightarrow>
        (case map_of (members g) rid of
           None \<Rightarrow> (Inl ''Cannot read properties of undefined'', w)
         | Some rm \<Rightarrow>
        (case performKeyExchange P (memberPublicKey sm) (memberPrivateKey rm) now (wRng w) of
           (Inl err, r1) \<Rightarrow> (Inl err, w\<lparr>wRng := r1\<rparr>)
         | (Inr kx, r1) \<Rightarrow>
        (case createRatchetState P (sharedSecret kx) (memberPrivateKey rm) (memberPublicKey sm)
                now r1 of
           (Inl err, r2) \<Rightarrow> (Inl err, w\<lparr>wRng := r2\<rparr>)
         | (Inr rs, r2) \<Rightarrow>
             (Inr rs, w\<lparr>wRng := r2,
                         wStore := storeRatchetState gid senderId rid rs (wStore w)\<rparr>))))))"

text \<open>
  The \<^verbatim>\<open>try\<close> block of \<^verbatim>\<open>decryptGroupMessage\<close>.  The session is looked up with
  \<^verbatim>\<open>createIfMissing: false\<close>, so \<^verbatim>\<open>_getRatchetState\<close> hands back what the store has.
  The result is the decrypted text; parsing it as JSON is left to the caller.
\<close>

definition decryptAttempt ::
  "prims \<Rightarrow> json_prims \<Rightarrow> string \<Rightarrow> group_message \<Rightarrow> string \<Rightarrow> group_options \<Rightarrow> world
   \<Rightarrow> (string + bytes) \<times> world" where
  "decryptAttempt P J gid msg rid opts w =
     (case getGroup gid (wStore w) of
        None \<Rightarrow> (Inl ''Group not found'', w)
      | Some groupState \<Rightarrow>
     (case find (\<lambda>entry. fst entry = rid) (encryptedMessages msg) of
        None \<Rightarrow> (Inl ''No message found for this recipient'', w)
      | Some entry \<Rightarrow>
     (case getRatchetState gid (gmSenderId msg) rid (wStore w) of
        None \<Rightarrow> (Inl ''No active session with sender'', w)
      | Some ratchetState \<Rightarrow>
     (case decryptMessage P ((snd entry)\<lparr>envMessageCount := gmMessageCount msg\<rparr>) ratchetState
             \<lparr>aad = Some (textEncode (aadJson J gid msg))\<rparr> (wRng w) of
        (Inl err, r1) \<Rightarrow> (Inl err, w\<lparr>wRng := r1\<rparr>)
      | (Inr decrypted, r1) \<Rightarrow>
          let w1 = w\<lparr>wRng := r1,
                     wStore := storeRatchetState gid (gmSenderId msg) rid ratchetState (wStore w)\<rparr>
          in if \<not> skipSignatureVerification opts \<and>
                \<not> verifyMessageIntegrity P (signedJson J gid msg decrypted) (gmSignature msg)
                    (signPublicKey (signingKeyPair groupState))
             then (Inl ''Invalid message signature'', w1)
             else (Inr decrypted, w1)))))"

text \<open>
  \<^verbatim>\<open>decryptGroupMessage\<close>: the \<^verbatim>\<open>catch\<close> block starts a recovery and calls the function
  again when the error message contains \<^verbatim>\<open>'ratchet state not found'\<close>, and rethrows
  otherwise.  Nothing bounds the number of retries (\<^verbatim>\<open>isRetry\<close> is set and never read),
  so the function is partial.
\<close>

partial_function (option) decryptGroupMessage ::
  "prims \<Rightarrow> json_prims \<Rightarrow> int \<Rightarrow> string \<Rightarrow> group_message \<Rightarrow> string \<Rightarrow> group_options \<Rightarrow> world
   \<Rightarrow> ((string + bytes) \<times> world) option" where
  "decryptGroupMessage P J now gid msg rid opts w =
     (case decryptAttempt P J gid msg rid opts w of
        (Inr content, w1) \<Rightarrow> Some (Inr content, w1)
      | (Inl err, w1) \<Rightarrow>
          if includesStr err ''ratchet state not found''
          then (case recoverRatchetState P now gid (gmSenderId msg) rid w1 of
                  (Inl err2, w2) \<Rightarrow> Some (Inl err2, w2)
                | (Inr rs, w2) \<Rightarrow>
                    decryptGroupMessage P J now gid msg rid (opts\<lparr>isRetry := True\<rparr>) w2)
          else Some (Inl err, w1))"

definition demoJson :: json_prims where
  "demoJson = \<lparr>aadJson = (\<lambda>gid m. gid @ '':'' @ gmMessageId m @ '':'' @ gmSenderId m),
               signedJson = (\<lambda>gid m d. gid @ '':'' @ gmMessageId m @ '':'' @ gmSenderId m)\<rparr>"

definition demoGroupMessage :: group_message where
  "demoGroupMessage =
     \<lparr>gmMessageId = ''m1'', gmSenderId = ''alice'', gmTimestamp = 300, gmType = ''regular'',
      encryptedMessages = [(''bob'', bogusEnvelope), (''carol'', bogusEnvelope)],
      gmSignature = ''7370'', gmMessageCount = None\<rparr>"

definition demoWorld :: world where
  "demoWorld = \<lparr>wStore = demoStore, wRng = rngB, wRecoveries = 0\<rparr>"

definition demoGroupOptions :: group_options where
  "demoGroupOptions = \<lparr>skipSignatureVerification = False, isRetry = False\<rparr>"

section \<open>Properties of the outbox queue\<close>

lemma markMessageSent_absent:
  "map_of (outbox q) k = None \<Longrightarrow> markMessageSent now k q = q"
  by (simp add: markMessageSent_def)

lemma markMessageSent_present:
  "map_of (outbox q) k = Some it \<Longrightarrow>
   map_of (outbox (markMessageSent now k q)) =
     (map_of (outbox q))(k \<mapsto> it\<lparr>status := Sent, sentAt := Some now\<rparr>)"
  by (simp add: markMessageSent_def update_conv')

lemma markMessageSent_keys:
  "map fst (outbox (markMessageSent now k q)) = map fst (outbox q)"
  by (auto simp: markMessageSent_def update_keys map_of_eq_None_iff split: option.splits)

lemma evolves_refl: "evolves q q"
  by (simp add: evolves_def itemFixed_def)

lemma evolves_trans: "evolves a b \<Longrightarrow> evolves b c \<Longrightarrow> evolves a c"
proof -
  assume ab: "evolves a b" and bc: "evolves b c"
  have "\<exists>it''. map_of (outbox c) k = Some it'' \<and> itemFixed it it''"
    if h: "map_of (outbox a) k = Some it" for k it
  proof -
    obtain it' where 1: "map_of (outbox b) k = Some it'" "itemFixed it it'"
      using ab h unfolding evolves_def by blast
    obtain it'' where 2: "map_of (outbox c) k = Some it''" "itemFixed it' it''"
      using bc 1(1) unfolding evolves_def by blast
    have "itemFixed it it''" using 1(2) 2(2) by (simp add: itemFixed_def)
    with 2(1) show ?thesis by blast
  qed
  moreover have "map fst (outbox c) = map fst (outbox a)" "networkStatus c = networkStatus a"
    using ab bc by (simp_all add: evolves_def)
  ultimately show ?thesis unfolding evolves_def by blast
qed

lemma evolves_update:
  assumes "map_of (outbox q) k = Some it" "itemFixed it it'"
  shows "evolves q (q\<lparr>outbox := AList.update k it' (outbox q)\<rparr>)"
  using assms
  by (auto simp: evolves_def update_keys update_conv' itemFixed_def dest: map_of_SomeD intro: rev_image_eqI)

lemma markMessageSent_evolves: "evolves q (markMessageSent now k q)"
  by (auto simp: markMessageSent_def evolves_refl itemFixed_def split: option.splits intro!: evolves_update)

lemma markMessageRetry_evolves: "evolves q (markMessageRetry now k q)"
  by (auto simp: markMessageRetry_def evolves_refl itemFixed_def split: option.splits intro!: evolves_update)

lemma markMessageFailed_evolves: "evolves q (markMessageFailed now k r q)"
  by (auto simp: markMessageFailed_def evolves_refl itemFixed_def split: option.splits intro!: evolves_update)

lemma processMessage_evolves: "evolves q (fst (processMessage e it q))"
  by (simp add: processMessage_def evolves_refl markMessageSent_evolves markMessageRetry_evolves
      markMessageFailed_evolves)

lemma processAll_evolves: "evolves q (fst (processAll env ks q))"
proof (induction ks arbitrary: q)
  case Nil
  show ?case by (simp add: evolves_refl)
next
  case (Cons k ks)
  show ?case
  proof (cases "map_of (outbox q) k")
    case None
    then show ?thesis using Cons.IH by simp
  next
    case (Some it)
    obtain q1 a where pm: "processMessage (env k) it q = (q1, a)" by (cases "processMessage (env k) it q")
    obtain q2 r where pa: "processAll env ks q1 = (q2, r)" by (cases "processAll env ks q1")
    have "evolves q q1" using processMessage_evolves[of q "env k" it] pm by simp
    moreover have "evolves q1 q2" using Cons.IH[of q1] pa by simp
    ultimately show ?thesis using Some pm pa by (simp add: evolves_trans)
  qed
qed

lemma processAll_subseq: "subseq (snd (processAll env ks q)) ks"
proof (induction ks arbitrary: q)
  case Nil
  show ?case by simp
next
  case (Cons k ks)
  show ?case
  proof (cases "map_of (outbox q) k")
    case None
    then show ?thesis using Cons.IH[of q] by (auto intro: list_emb_Cons)
  next
    case (Some it)
    obtain q1 a where pm: "processMessage (env k) it q = (q1, a)" by (cases "processMessage (env k) it q")
    obtain q2 r where pa: "processAll env ks q1 = (q2, r)" by (cases "processAll env ks q1")
    have "subseq r ks" using Cons.IH[of q1] pa by simp
    then show ?thesis using Some pm pa by (auto intro: list_emb_Cons)
  qed
qed

lemma plain_lookup:
  "priority a \<notin> set inheritedNames \<Longrightarrow> priorityOrder (priority a) = Num (tier a)"
  by (simp add: tier_def priorityOrder_def split: option.splits)

lemma compareItems_le0:
  assumes "priority a \<notin> set inheritedNames" "priority b \<notin> set inheritedNames"
  shows "compareItems a b \<le> 0 \<longleftrightarrow> goesBefore a b"
  using plain_lookup[OF assms(1)] plain_lookup[OF assms(2)]
  by (auto simp: compareItems_def goesBefore_def Let_def)

lemma set_insertBy: "set (insertBy c x ys) = insert x (set ys)"
  by (induction ys) auto

lemma set_sortBy: "set (sortBy c xs) = set xs"
  by (induction xs) (simp_all add: sortBy_def set_insertBy)

lemma sorted_insertBy:
  assumes mem: "x \<in> S" "set ys \<subseteq> S"
    and total: "\<And>x y. x \<in> S \<Longrightarrow> y \<in> S \<Longrightarrow> c x y \<le> 0 \<or> c y x \<le> 0"
    and trans: "\<And>x y z. x \<in> S \<Longrightarrow> y \<in> S \<Longrightarrow> z \<in> S \<Longrightarrow> c x y \<le> 0 \<Longrightarrow> c y z \<le> 0 \<Longrightarrow> c x z \<le> 0"
    and srt: "sorted_wrt (\<lambda>a b. c a b \<le> 0) ys"
  shows "sorted_wrt (\<lambda>a b. c a b \<le> 0) (insertBy c x ys)"
  using srt mem(2)
proof (induction ys)
  case Nil
  show ?case by simp
next
  case (Cons y ys)
  have y: "y \<in> S" and ys: "set ys \<subseteq> S" using Cons.prems(2) by auto
  show ?case
  proof (cases "c x y \<le> 0")
    case True
    have "c x z \<le> 0" if "z \<in> set ys" for z
    proof -
      have "z \<in> S" using that ys by auto
      moreover have "c y z \<le> 0" using Cons.prems(1) that by simp
      ultimately show ?thesis using trans[OF mem(1) y _ True] by blast
    qed
    with True Cons.prems show ?thesis by simp
  next
    case False
    then have "c y x \<le> 0" using total[OF mem(1) y] by simp
    moreover have "sorted_wrt (\<lambda>a b. c a b \<le> 0) (insertBy c x ys)"
      using Cons.IH Cons.prems(1) ys by simp
    ultimately show ?thesis using False Cons.prems(1) by (auto simp: set_insertBy)
  qed
qed

lemma sorted_sortBy:
  assumes mem: "set xs \<subseteq> S"
    and total: "\<And>x y. x \<in> S \<Longrightarrow> y \<in> S \<Longrightarrow> c x y \<le> 0 \<or> c y x \<le> 0"
    and trans: "\<And>x y z. x \<in> S \<Longrightarrow> y \<in> S \<Longrightarrow> z \<in> S \<Longrightarrow> c x y \<le> 0 \<Longrightarrow> c y z \<le> 0 \<Longrightarrow> c x z \<le> 0"
  shows "sorted_wrt (\<lambda>a b. c a b \<le> 0) (sortBy c xs)"
  using mem
proof (induction xs)
  case Nil
  show ?case by (simp add: sortBy_def)
next
  case (Cons x xs)
  have e: "sortBy c (x # xs) = insertBy c x (sortBy c xs)" by (simp add: sortBy_def)
  have "sorted_wrt (\<lambda>a b. c a b \<le> 0) (insertBy c x (sortBy c xs))"
  proof (rule sorted_insertBy[where S = S])
    show "x \<in> S" using Cons.prems by simp
    show "set (sortBy c xs) \<subseteq> S" using Cons.prems by (simp add: set_sortBy)
    show "sorted_wrt (\<lambda>a b. c a b \<le> 0) (sortBy c xs)" using Cons.IH Cons.prems by simp
  qed (use total trans in blast)+
  then show ?case by (simp only: e)
qed

lemma goesBefore_total: "goesBefore a b \<or> goesBefore b a"
  by (auto simp: goesBefore_def)

lemma goesBefore_trans: "goesBefore a b \<Longrightarrow> goesBefore b c \<Longrightarrow> goesBefore a c"
  by (auto simp: goesBefore_def)

lemma sorted_pendingMessages:
  assumes plain: "plainPriorities q"
  shows "sorted_wrt (\<lambda>a b. goesBefore (snd a) (snd b)) (pendingMessages q)"
proof -
  let ?c = "\<lambda>a b :: string \<times> 'a outbox_item. compareItems (snd a) (snd b)"
  let ?S = "{entry :: string \<times> 'a outbox_item. priority (snd entry) \<notin> set inheritedNames}"
  let ?xs = "filter (\<lambda>entry. status (snd entry) = Pending) (outbox q)"
  have sub: "set ?xs \<subseteq> ?S" using plain by (auto simp: plainPriorities_def)
  have "sorted_wrt (\<lambda>a b. ?c a b \<le> 0) (sortBy ?c ?xs)"
  proof (rule sorted_sortBy[where S = ?S, OF sub])
    show "?c x y \<le> 0 \<or> ?c y x \<le> 0" if "x \<in> ?S" "y \<in> ?S" for x y
      using that goesBefore_total[of "snd x" "snd y"] by (simp add: compareItems_le0)
    show "?c x z \<le> 0" if "x \<in> ?S" "y \<in> ?S" "z \<in> ?S" "?c x y \<le> 0" "?c y z \<le> 0" for x y z
      using that goesBefore_trans[of "snd x" "snd y" "snd z"] by (simp add: compareItems_le0)
  qed
  then have "sorted_wrt (\<lambda>a b. goesBefore (snd a) (snd b)) (sortBy ?c ?xs)"
  proof (rule sorted_wrt_mono_rel[rotated])
    fix a b assume ab: "a \<in> set (sortBy ?c ?xs)" "b \<in> set (sortBy ?c ?xs)" and le: "?c a b \<le> 0"
    have "a \<in> ?S" "b \<in> ?S" using ab sub by (auto simp: set_sortBy)
    then have "priority (snd a) \<notin> set inheritedNames" "priority (snd b) \<notin> set inheritedNames"
      by simp_all
    then show "goesBefore (snd a) (snd b)" using le by (simp add: compareItems_le0)
  qed
  then show ?thesis by (simp add: pendingMessages_def)
qed

lemma set_pendingMessages:
  "set (pendingMessages q) = {entry \<in> set (outbox q). status (snd entry) = Pending}"
  by (auto simp: pendingMessages_def set_sortBy)

lemma subseq_set: "subseq xs ys \<Longrightarrow> set xs \<subseteq> set ys"
  by (induction rule: list_emb.induct) auto

lemma subseq_distinct: "subseq xs ys \<Longrightarrow> distinct ys \<Longrightarrow> distinct xs"
  by (induction rule: list_emb.induct) (use subseq_set in auto)

lemma distinct_insertBy:
  "distinct (map f (insertBy c x ys)) \<longleftrightarrow> f x \<notin> f ` set ys \<and> distinct (map f ys)"
  by (induction ys) (auto simp: set_insertBy)

lemma distinct_sortBy: "distinct (map f (sortBy c xs)) \<longleftrightarrow> distinct (map f xs)"
  by (induction xs) (simp_all add: sortBy_def distinct_insertBy set_sortBy[unfolded sortBy_def])

lemma sorted_wrt_subseq: "subseq xs ys \<Longrightarrow> sorted_wrt R ys \<Longrightarrow> sorted_wrt R xs"
proof (induction rule: list_emb.induct)
  case (list_emb_Nil ys)
  show ?case by simp
next
  case (list_emb_Cons xs ys y)
  then show ?case by simp
next
  case (list_emb_Cons2 x y xs ys)
  then have "set xs \<subseteq> set ys" by (simp add: subseq_set)
  with list_emb_Cons2 show ?case by auto
qed

lemma pending_lookup:
  assumes "distinct (map fst (outbox q))" "entry \<in> set (pendingMessages q)"
  shows "map_of (outbox q) (fst entry) = Some (snd entry) \<and> status (snd entry) = Pending"
  using assms by (auto simp: set_pendingMessages)

lemma sorted_pending_keys:
  assumes d: "distinct (map fst (outbox q))" and plain: "plainPriorities q"
  shows "sorted_wrt (\<lambda>j k. goesBefore (the (map_of (outbox q) j)) (the (map_of (outbox q) k)))
           (map fst (pendingMessages q))"
proof -
  have "sorted_wrt (\<lambda>a b. goesBefore (the (map_of (outbox q) (fst a))) (the (map_of (outbox q) (fst b))))
          (pendingMessages q)"
    using sorted_pendingMessages[OF plain]
  proof (rule sorted_wrt_mono_rel[rotated])
    fix a b assume "a \<in> set (pendingMessages q)" "b \<in> set (pendingMessages q)"
      "goesBefore (snd a) (snd b)"
    then show "goesBefore (the (map_of (outbox q) (fst a))) (the (map_of (outbox q) (fst b)))"
      using pending_lookup[OF d] by simp
  qed
  then show ?thesis by (simp add: sorted_wrt_map)
qed

text \<open>
  The order of the attempts in an outbox where no priority is the name of an inherited
  object property.  When the network status is not \<^verbatim>\<open>'online'\<close>, \<^verbatim>\<open>processQueue\<close>
  attempts nothing and returns the queue as it was.  When it is \<^verbatim>\<open>'online'\<close>, every item
  it attempts was pending, no item is attempted twice, and the attempts come in the sorted
  order: an item of higher priority before any item of lower priority, and within one
  priority the older timestamp first.  The outbox is a \<^verbatim>\<open>Map\<close>, so its keys are distinct.
\<close>

lemma processQueue_priority_order:
  assumes d: "distinct (map fst (outbox q))" and plain: "plainPriorities q"
  shows "(networkStatus q \<noteq> ''online'' \<longrightarrow> processQueue env q = (q, [])) \<and>
         (networkStatus q = ''online'' \<longrightarrow>
            (\<forall>k \<in> set (snd (processQueue env q)).
               \<exists>it. map_of (outbox q) k = Some it \<and> status it = Pending) \<and>
            distinct (snd (processQueue env q)) \<and>
            sorted_wrt (\<lambda>j k. goesBefore (the (map_of (outbox q) j)) (the (map_of (outbox q) k)))
              (snd (processQueue env q)))"
proof (intro conjI impI)
  show "processQueue env q = (q, [])" if "networkStatus q \<noteq> ''online''"
    using that by (simp add: processQueue_def)
next
  assume on: "networkStatus q = ''online''"
  let ?att = "snd (processQueue env q)"
  have sub: "subseq ?att (map fst (pendingMessages q))"
    using on processAll_subseq[of env "map fst (pendingMessages q)" q] by (simp add: processQueue_def)
  show "\<forall>k \<in> set ?att. \<exists>it. map_of (outbox q) k = Some it \<and> status it = Pending"
  proof
    fix k assume "k \<in> set ?att"
    then have "k \<in> set (map fst (pendingMessages q))" using sub subseq_set by blast
    then obtain entry where "entry \<in> set (pendingMessages q)" "fst entry = k" by auto
    then show "\<exists>it. map_of (outbox q) k = Some it \<and> status it = Pending"
      using pending_lookup[OF d, of entry] by auto
  qed
  have "distinct (map fst (pendingMessages q))"
    using d by (simp add: pendingMessages_def distinct_sortBy distinct_map_filter)
  with sub show "distinct ?att" by (rule subseq_distinct)
  show "sorted_wrt (\<lambda>j k. goesBefore (the (map_of (outbox q) j)) (the (map_of (outbox q) k))) ?att"
    using sub sorted_pending_keys[OF d plain] by (rule sorted_wrt_subseq)
qed

lemma processQueue_priority_order_demo:
  "distinct (map fst (outbox demoQueue)) \<and> plainPriorities demoQueue \<and>
   networkStatus demoQueue = ''online'' \<and>
   snd (processQueue demoEnv demoQueue) = [''c'', ''e'', ''a''] \<and>
   sorted_wrt (\<lambda>j k. goesBefore (the (map_of (outbox demoQueue) j)) (the (map_of (outbox demoQueue) k)))
     (snd (processQueue demoEnv demoQueue)) \<and>
   processQueue demoEnv (demoQueue\<lparr>networkStatus := ''offline''\<rparr>) =
     (demoQueue\<lparr>networkStatus := ''offline''\<rparr>, [])"
proof -
  have d: "distinct (map fst (outbox demoQueue))" by (simp add: demoQueue_def)
  have on: "networkStatus demoQueue = ''online''" by (simp add: demoQueue_def)
  have d': "distinct (map fst (outbox (demoQueue\<lparr>networkStatus := ''offline''\<rparr>)))"
    by (simp add: demoQueue_def)
  have off: "networkStatus (demoQueue\<lparr>networkStatus := ''offline''\<rparr>) \<noteq> ''online''" by simp
  have p: "plainPriorities demoQueue"
    by (simp add: plainPriorities_def demoQueue_def demoItem_def inheritedNames_def)
  have p': "plainPriorities (demoQueue\<lparr>networkStatus := ''offline''\<rparr>)"
    using p by (simp add: plainPriorities_def)
  have att: "snd (processQueue demoEnv demoQueue) = [''c'', ''e'', ''a'']" by code_simp
  show ?thesis
    using processQueue_priority_order[OF d p, of demoEnv]
      processQueue_priority_order[OF d' p', of demoEnv] d p on off att by simp
qed

text \<open>
  Claim C6 on a concrete run.  Three pending items are queued in the order low, \<open>p\<close>, high
  and the network is online.  With \<open>p\<close> a priority that \<^verbatim>\<open>priorityOrder\<close> does not list,
  such as \<^verbatim>\<open>'urgent'\<close>, the fallback \<^verbatim>\<open>|| 2\<close> makes it a normal item and the attempts
  are high, \<open>p\<close>, low.  With \<open>p\<close> = \<^verbatim>\<open>'constructor'\<close> the lookup finds the inherited
  property, the fallback does not apply, every comparison with that item is \<^verbatim>\<open>NaN\<close>,
  the sort leaves the three items where they were, and the low item is attempted before
  the high one.
\<close>

theorem inherited_priority_breaks_order:
  "networkStatus (tierQueue ''constructor'') = ''online'' \<and>
   map (\<lambda>entry. (fst entry, priority (snd entry), timestamp (snd entry), status (snd entry)))
       (outbox (tierQueue ''constructor'')) =
     [(''l'', ''low'', 1, Pending), (''x'', ''constructor'', 2, Pending), (''h'', ''high'', 3, Pending)] \<and>
   snd (processQueue demoEnv (tierQueue ''constructor'')) = [''l'', ''x'', ''h''] \<and>
   snd (processQueue demoEnv (tierQueue ''urgent'')) = [''h'', ''x'', ''l''] \<and>
   snd (processQueue demoEnv (tierQueue ''normal'')) = [''h'', ''x'', ''l'']"
proof (intro conjI)
  show "networkStatus (tierQueue ''constructor'') = ''online''"
    by (simp add: tierQueue_def)
  show "map (\<lambda>entry. (fst entry, priority (snd entry), timestamp (snd entry), status (snd entry)))
       (outbox (tierQueue ''constructor'')) =
     [(''l'', ''low'', 1, Pending), (''x'', ''constructor'', 2, Pending), (''h'', ''high'', 3, Pending)]"
    by (simp add: tierQueue_def demoItem_def)
  show "snd (processQueue demoEnv (tierQueue ''constructor'')) = [''l'', ''x'', ''h'']"
    by (simp add: tierQueue_def demoItem_def demoEnv_def processQueue_def pendingMessages_def
        sortBy_def compareItems_def priorityOrder_def inheritedNames_def processMessage_def
        markMessageSent_def maxRetries_def Let_def)
  show "snd (processQueue demoEnv (tierQueue ''urgent'')) = [''h'', ''x'', ''l'']"
    by (simp add: tierQueue_def demoItem_def demoEnv_def processQueue_def pendingMessages_def
        sortBy_def compareItems_def priorityOrder_def inheritedNames_def processMessage_def
        markMessageSent_def maxRetries_def Let_def)
  show "snd (processQueue demoEnv (tierQueue ''normal'')) = [''h'', ''x'', ''l'']"
    by (simp add: tierQueue_def demoItem_def demoEnv_def processQueue_def pendingMessages_def
        sortBy_def compareItems_def priorityOrder_def inheritedNames_def processMessage_def
        markMessageSent_def maxRetries_def Let_def)
qed

lemma processQueue_evolves: "evolves q (fst (processQueue env q))"
  by (simp add: processQueue_def evolves_refl processAll_evolves)

lemma processQueue_skips_settled:
  assumes d: "distinct (map fst (outbox q))"
    and k: "map_of (outbox q) k = Some it" and st: "status it \<noteq> Pending"
  shows "k \<notin> set (snd (processQueue env q))"
proof
  assume "k \<in> set (snd (processQueue env q))"
  then have "k \<in> set (map fst (pendingMessages q))"
    using processAll_subseq[of env "map fst (pendingMessages q)" q] subseq_set
    by (fastforce simp: processQueue_def split: if_splits)
  then obtain entry where "entry \<in> set (pendingMessages q)" "fst entry = k" by auto
  then show False using pending_lookup[OF d, of entry] k st by auto
qed

lemma processMessage_exhausted:
  "maxRetries \<le> retryCount it \<Longrightarrow>
   processMessage e it q = (markMessageFailed (clockStamp e) (item_id it) ''max_retries_exceeded'' q, False)"
  by (simp add: processMessage_def)

lemma processAll_skips_exhausted:
  assumes "map_of (outbox q) k = Some it" "maxRetries \<le> retryCount it"
  shows "k \<notin> set (snd (processAll env ks q))"
  using assms
proof (induction ks arbitrary: q it)
  case Nil
  show ?case by simp
next
  case (Cons j ks)
  show ?case
  proof (cases "map_of (outbox q) j")
    case None
    then show ?thesis using Cons.IH[OF Cons.prems] by simp
  next
    case (Some jt)
    obtain q1 a where pm: "processMessage (env j) jt q = (q1, a)"
      by (cases "processMessage (env j) jt q")
    obtain q2 r where pa: "processAll env ks q1 = (q2, r)" by (cases "processAll env ks q1")
    have "evolves q q1" using processMessage_evolves[of q "env j" jt] pm by simp
    then obtain it' where it': "map_of (outbox q1) k = Some it'" "itemFixed it it'"
      using Cons.prems(1) unfolding evolves_def by blast
    then have "maxRetries \<le> retryCount it'" using Cons.prems(2) by (simp add: itemFixed_def)
    then have "k \<notin> set r" using Cons.IH[OF it'(1)] pa by simp
    moreover have "\<not> a" if "j = k"
      using that Some Cons.prems pm by (simp add: processMessage_exhausted)
    ultimately show ?thesis using Some pm pa by auto
  qed
qed

lemma ticks_skip_exhausted:
  assumes "distinct (map fst (outbox q))"
    and "map_of (outbox q) k = Some it"
    and "status it \<noteq> Pending \<or> maxRetries \<le> retryCount it"
  shows "k \<notin> set (snd (ticks ts q))"
  using assms
proof (induction ts arbitrary: q it)
  case Nil
  show ?case by simp
next
  case (Cons t ts)
  obtain net env where t: "t = (net, env)" by (cases t)
  let ?q0 = "q\<lparr>networkStatus := net\<rparr>"
  obtain q1 a1 where pq: "processQueue env ?q0 = (q1, a1)" by (cases "processQueue env ?q0")
  obtain q2 a2 where tk: "ticks ts q1 = (q2, a2)" by (cases "ticks ts q1")
  have d0: "distinct (map fst (outbox ?q0))" and k0: "map_of (outbox ?q0) k = Some it"
    using Cons.prems by simp_all
  have ev: "evolves ?q0 q1" using processQueue_evolves[of ?q0 env] pq by simp
  have "k \<notin> set a1"
  proof (cases "status it \<noteq> Pending")
    case True
    then show ?thesis using processQueue_skips_settled[OF d0 k0, of env] pq by simp
  next
    case False
    then have "maxRetries \<le> retryCount it" using Cons.prems(3) by simp
    then show ?thesis
      using processAll_skips_exhausted[OF k0, of env "map fst (pendingMessages ?q0)"] pq
      by (simp add: processQueue_def split: if_splits)
  qed
  moreover
  obtain it' where it': "map_of (outbox q1) k = Some it'" "itemFixed it it'"
    using ev k0 unfolding evolves_def by blast
  have "distinct (map fst (outbox q1))" using ev d0 by (simp add: evolves_def)
  moreover have "status it' \<noteq> Pending \<or> maxRetries \<le> retryCount it'"
    using it'(2) Cons.prems(3) by (auto simp: itemFixed_def)
  ultimately have "k \<notin> set a1" "k \<notin> set a2"
    using Cons.IH[of q1 it'] it'(1) tk by simp_all
  then show ?case using t pq tk by simp
qed

text \<open>
  Claim C5.  For an item stored in the outbox under its id whose \<^verbatim>\<open>retryCount\<close> has
  reached \<^verbatim>\<open>maxRetries\<close>, \<^verbatim>\<open>processMessage\<close> does not call \<^verbatim>\<open>sendMessage\<close> and
  leaves the item \<^verbatim>\<open>failed\<close> with reason \<^verbatim>\<open>max_retries_exceeded\<close>; no run of
  \<^verbatim>\<open>processQueue\<close> ticks afterwards attempts it, and neither does any run of ticks
  started from the queue as it was.
\<close>

theorem exhausted_item_fails_for_good:
  assumes d: "distinct (map fst (outbox q))"
    and k: "map_of (outbox q) k = Some it" and id: "item_id it = k"
    and rc: "maxRetries \<le> retryCount it"
  shows "snd (processMessage e it q) = False \<and>
         map_of (outbox (fst (processMessage e it q))) k =
           Some (it\<lparr>status := Failed, failureReason := Some ''max_retries_exceeded'',
                     failedAt := Some (clockStamp e)\<rparr>) \<and>
         (\<forall>ts. k \<notin> set (snd (ticks ts (fst (processMessage e it q))))) \<and>
         (\<forall>ts. k \<notin> set (snd (ticks ts q)))"
proof -
  let ?it' = "it\<lparr>status := Failed, failureReason := Some ''max_retries_exceeded'',
                     failedAt := Some (clockStamp e)\<rparr>"
  let ?q' = "fst (processMessage e it q)"
  have pm: "processMessage e it q = (markMessageFailed (clockStamp e) k ''max_retries_exceeded'' q, False)"
    using rc id by (simp add: processMessage_def)
  have look: "map_of (outbox ?q') k = Some ?it'"
    using pm k by (simp add: markMessageFailed_def update_conv')
  have "evolves q ?q'" by (rule processMessage_evolves)
  then have d': "distinct (map fst (outbox ?q'))" using d by (simp add: evolves_def)
  have "k \<notin> set (snd (ticks ts ?q'))" for ts
    by (rule ticks_skip_exhausted[OF d' look]) simp
  moreover have "k \<notin> set (snd (ticks ts q))" for ts
    by (rule ticks_skip_exhausted[OF d k]) (simp add: rc)
  ultimately show ?thesis using pm look by simp
qed

theorem exhausted_item_fails_for_good_witness:
  "distinct (map fst (outbox demoQueue)) \<and>
   map_of (outbox demoQueue) ''b'' = Some (demoItem ''b'' ''normal'' 2 5 Pending) \<and>
   item_id (demoItem ''b'' ''normal'' 2 5 Pending) = ''b'' \<and>
   maxRetries \<le> retryCount (demoItem ''b'' ''normal'' 2 5 Pending) \<and>
   snd (processMessage (demoEnv ''b'') (demoItem ''b'' ''normal'' 2 5 Pending) demoQueue) = False \<and>
   ''b'' \<notin> set (snd (ticks [(''online'', demoEnv), (''online'', demoEnv)] demoQueue))"
proof -
  have d: "distinct (map fst (outbox demoQueue))" by (simp add: demoQueue_def)
  have k: "map_of (outbox demoQueue) ''b'' = Some (demoItem ''b'' ''normal'' 2 5 Pending)"
    by (simp add: demoQueue_def)
  have i: "item_id (demoItem ''b'' ''normal'' 2 5 Pending) = ''b''" by (simp add: demoItem_def)
  have r: "maxRetries \<le> retryCount (demoItem ''b'' ''normal'' 2 5 Pending)"
    by (simp add: demoItem_def maxRetries_def)
  note t = exhausted_item_fails_for_good[OF d k i r, of "demoEnv ''b''"]
  from t have c1: "snd (processMessage (demoEnv ''b'') (demoItem ''b'' ''normal'' 2 5 Pending) demoQueue) = False"
    by (rule conjunct1)
  from t have c2: "''b'' \<notin> set (snd (ticks [(''online'', demoEnv), (''online'', demoEnv)] demoQueue))"
    by blast
  from d k i r c1 c2 show ?thesis by (intro conjI)
qed

text \<open>
  Claim C10.  When the acknowledged id is in the outbox, \<^verbatim>\<open>handleAcknowledgment\<close> sets
  that item's status to \<^verbatim>\<open>sent\<close> and stamps \<^verbatim>\<open>sentAt\<close> whatever its status was
  (a failed item included), and changes nothing else; when the id is not in the outbox the
  queue is unchanged.
\<close>

theorem handleAcknowledgment_marks_sent:
  "(\<forall>it. map_of (outbox q) (messageId ack) = Some it \<longrightarrow>
      map_of (outbox (handleAcknowledgment now ack q)) =
        (map_of (outbox q))(messageId ack \<mapsto> it\<lparr>status := Sent, sentAt := Some now\<rparr>) \<and>
      map fst (outbox (handleAcknowledgment now ack q)) = map fst (outbox q) \<and>
      networkStatus (handleAcknowledgment now ack q) = networkStatus q) \<and>
   (map_of (outbox q) (messageId ack) = None \<longrightarrow> handleAcknowledgment now ack q = q)"
proof (intro conjI allI impI)
  fix it assume h: "map_of (outbox q) (messageId ack) = Some it"
  show "map_of (outbox (handleAcknowledgment now ack q)) =
        (map_of (outbox q))(messageId ack \<mapsto> it\<lparr>status := Sent, sentAt := Some now\<rparr>)"
    using h by (simp add: handleAcknowledgment_def markMessageSent_present)
  show "map fst (outbox (handleAcknowledgment now ack q)) = map fst (outbox q)"
    by (simp add: handleAcknowledgment_def markMessageSent_keys)
  show "networkStatus (handleAcknowledgment now ack q) = networkStatus q"
    using h by (simp add: handleAcknowledgment_def markMessageSent_def)
next
  assume "map_of (outbox q) (messageId ack) = None"
  then show "handleAcknowledgment now ack q = q"
    by (simp add: handleAcknowledgment_def markMessageSent_absent)
qed

theorem handleAcknowledgment_marks_sent_witness:
  "map_of (outbox demoQueue) ''d'' = Some (demoItem ''d'' ''normal'' 4 0 Failed) \<and>
   map_of (outbox (handleAcknowledgment 7
      \<lparr>ack_type = ''acknowledgment'', messageId = ''d'', ack_timestamp = 6\<rparr> demoQueue)) ''d'' =
     Some ((demoItem ''d'' ''normal'' 4 0 Failed)\<lparr>status := Sent, sentAt := Some 7\<rparr>) \<and>
   map_of (outbox demoQueue) ''zz'' = None \<and>
   handleAcknowledgment 7 \<lparr>ack_type = ''acknowledgment'', messageId = ''zz'', ack_timestamp = 6\<rparr>
     demoQueue = demoQueue"
proof -
  have p: "map_of (outbox demoQueue) ''d'' = Some (demoItem ''d'' ''normal'' 4 0 Failed)"
    by (simp add: demoQueue_def)
  have a: "map_of (outbox demoQueue) ''zz'' = None" by (simp add: demoQueue_def)
  show ?thesis
    using handleAcknowledgment_marks_sent[of demoQueue
        "\<lparr>ack_type = ''acknowledgment'', messageId = ''d'', ack_timestamp = 6\<rparr>" 7]
      handleAcknowledgment_marks_sent[of demoQueue
        "\<lparr>ack_type = ''acknowledgment'', messageId = ''zz'', ack_timestamp = 6\<rparr>" 7] p a
    by simp
qed

section \<open>Properties of key generation\<close>

text \<open>
  Claim C9, as the code has it.  \<^verbatim>\<open>generateIdentityKeys\<close> returns the fresh key as the
  one current key, not compromised and expiring a year after its creation; the history is
  the first three entries of the old current key followed by the old history (empty when
  no key set is passed), so it has at most three entries.  Nothing is filtered out of it.
\<close>

theorem generateIdentityKeys_history:
  "current (generateIdentityKeys e prev) =
     \<lparr>keyId = kgKeyId e, privateKey = kgSecretKey e, publicKey = kgPublicKey e,
      createdAt = kgNow e, expiresAt = kgNow e + 31536000000, isCompromised = False\<rparr> \<and>
   previous (generateIdentityKeys e prev) =
     take 3 (case prev of None \<Rightarrow> [] | Some pk \<Rightarrow> current pk # previous pk) \<and>
   length (previous (generateIdentityKeys e prev)) \<le> 3 \<and>
   previous (generateIdentityKeys e None) = []"
  by (simp add: generateIdentityKeys_def Let_def)

text \<open>
  Claim C9 as stated fails: the history is not purged.  Rotating away from a compromised
  key that has also expired puts that very key at the head of the history.
\<close>

theorem generateIdentityKeys_keeps_compromised:
  "previous (generateIdentityKeys demoKeygenEnv (Some demoKeySet)) =
     [demoKey ''k2'' 2000 True, demoKey ''k1'' 1000 False] \<and>
   isCompromised (demoKey ''k2'' 2000 True) \<and>
   isExpired (kgNow demoKeygenEnv) (demoKey ''k2'' 2000 True)"
  by (simp add: generateIdentityKeys_def Let_def demoKeySet_def demoKeygenEnv_def demoKey_def
      isExpired_def)

section \<open>Properties of the message encryption\<close>

lemma upt_32: "[0..<32] = [0,1,2,3,4,5,6,7,8,9,10,11,12,13,14,15,16,17,18,19,20,21,22,23,24,25,26,27,28,29,30,31]"
  by (simp add: upt_rec[of _ "numeral _"] upt_rec[of 0])

lemma length_refMac: "length (refMac k d) = 32"
  by (simp add: refMac_def)

lemma hkdf_refPrims:
  "hkdf refPrims ikm salt info 32 = Inr (refMac (refMac salt ikm) (info @ [1]))"
  by (simp add: hkdf_def MAX_KEY_LENGTH_def HASH_LENGTH_def Let_def setAt_def length_refMac
      refPrims_def)

lemma deriveKey_refPrims:
  "deriveKey refPrims km info 32 r = (Inr (refKey km info r), \<lambda>i. r (i + 32))"
  by (simp add: deriveKey_def generateRandomBytes_def HASH_LENGTH_def hkdf_refPrims refKey_def)

lemma length_refKey: "length (refKey km info r) = 32"
  by (simp add: refKey_def length_refMac)

lemma hexValue_hexDigit: "n < 16 \<Longrightarrow> hexValue (hexDigit n) = Some n"
proof -
  have "\<forall>n \<in> set [0..<16]. hexValue (hexDigit n) = Some n"
    by (simp add: hexValue_def hexDigit_def upt_rec[of _ "numeral _"] upt_rec[of 0])
  then show "n < 16 \<Longrightarrow> hexValue (hexDigit n) = Some n" by simp
qed

lemma hexValue_simps:
  "hexValue CHR ''0'' = Some 0" "hexValue CHR ''1'' = Some 1" "hexValue CHR ''2'' = Some 2"
  "hexValue CHR ''3'' = Some 3" "hexValue CHR ''4'' = Some 4" "hexValue CHR ''5'' = Some 5"
  "hexValue CHR ''6'' = Some 6" "hexValue CHR ''7'' = Some 7" "hexValue CHR ''8'' = Some 8"
  "hexValue CHR ''9'' = Some 9" "hexValue CHR ''a'' = Some 10" "hexValue CHR ''b'' = Some 11"
  "hexValue CHR ''c'' = Some 12" "hexValue CHR ''d'' = Some 13" "hexValue CHR ''e'' = Some 14"
  "hexValue CHR ''f'' = Some 15"
  by (simp_all add: hexValue_def upt_rec[of _ "numeral _"] upt_rec[of 0])

lemma byte_split: "of_nat (16 * (unat (b :: byte) div 16) + unat b mod 16) = b"
  by simp

lemma fromHex_bytesToHex: "fromHex (bytesToHex bs) = Inr bs"
proof (induction bs)
  case Nil
  show ?case by (simp add: bytesToHex_def)
next
  case (Cons b bs)
  have "unat b < 256" using unsigned_less[of b, where ?'a = nat] by simp
  then have "unat b div 16 < 16" "unat b mod 16 < 16" by simp_all
  then show ?case using Cons byte_split[of b]
    by (simp add: bytesToHex_def hexValue_hexDigit del: of_nat_add of_nat_mult)
qed

lemma secretbox_open_other_key:
  assumes "length k = length k'" "k \<noteq> k'"
  shows "secretbox_open refPrims (secretbox refPrims m n k) n' k' = None"
  using assms by (auto simp: refPrims_def prefix_def)

lemma secretbox_open_same_key:
  "secretbox_open refPrims (secretbox refPrims m n k) n k = Some m"
  by (simp add: refPrims_def)

lemma includes_padded: "includesStr ''xchacha20poly1305-1.0.0-padded'' ''padded''"
  by simp

lemma encryptMessage_refPrims:
  "encryptMessage refPrims m s opts now r =
     (let r1 = snd (generatePadding (length (messageBytes m)) r);
          padding = fst (generatePadding (length (messageBytes m)) r);
          k = refKey (KeyString (chainKey s)) (''amix-msg-'' @ showInt (messageCount s)) r1;
          nk = refKey (KeyString (chainKey s)) ''amix-next-chain'' (\<lambda>i. r1 (i + 32));
          n = fst (generateRandomBytes 24 (\<lambda>i. r1 (i + 32 + 32)));
          padded = [of_nat (length padding) AND 0xFF,
                    if length (messageBytes m) > 255 then 255 else of_nat (length (messageBytes m))]
                   @ messageBytes m @ padding
      in (Inr (\<lparr>ciphertext = bytesToHex (k @ n @ padded), nonce = bytesToHex n,
                 envAad = bytesToHex (refMac [] (case aad opts of None \<Rightarrow> [] | Some a \<Rightarrow> a)),
                 envMessageCount = Some (messageCount s + 1), envTimestamp = now,
                 envVersion = Some ''xchacha20poly1305-1.0.0-padded''\<rparr>,
               s\<lparr>chainKey := bytesToHex nk, messageCount := messageCount s + 1\<rparr>),
          snd (generateRandomBytes 24 (\<lambda>i. r1 (i + 32 + 32)))))"
proof -
  have p: "addPadding refPrims = Inr" "secretbox refPrims = (\<lambda>m n k. k @ n @ m)"
    "sha256 refPrims = refMac []" "encodeBase64 refPrims = bytesToHex"
    by (simp_all add: refPrims_def)
  show ?thesis
    by (simp add: encryptMessage_def p deriveKey_refPrims Let_def split_def add.assoc)
qed

lemma decrypt_other_salt:
  assumes enc: "encryptMessage refPrims m s opts now r = (Inr (e, s'), r')"
    and ne: "refKey (KeyString (chainKey s)) (''amix-msg-'' @ showInt (messageCount s))
               (snd (generatePadding (length (messageBytes m)) r)) \<noteq>
             refKey (KeyString (chainKey s)) (''amix-msg-'' @ showInt (messageCount s)) rd"
  shows "fst (decryptMessage refPrims e s opts rd) =
           Inl ''Message decryption failed: Decryption failed - invalid ciphertext or key''"
proof -
  let ?r1 = "snd (generatePadding (length (messageBytes m)) r)"
  let ?k = "refKey (KeyString (chainKey s)) (''amix-msg-'' @ showInt (messageCount s)) ?r1"
  let ?k' = "refKey (KeyString (chainKey s)) (''amix-msg-'' @ showInt (messageCount s)) rd"
  define n where "n = fst (generateRandomBytes 24 (\<lambda>i. ?r1 (i + 32 + 32)))"
  define padded where "padded =
     [of_nat (length (fst (generatePadding (length (messageBytes m)) r))) AND 0xFF,
      if length (messageBytes m) > 255 then 255 else of_nat (length (messageBytes m))]
     @ messageBytes m @ fst (generatePadding (length (messageBytes m)) r)"
  have e: "e = \<lparr>ciphertext = bytesToHex (?k @ n @ padded), nonce = bytesToHex n,
                 envAad = bytesToHex (refMac [] (case aad opts of None \<Rightarrow> [] | Some a \<Rightarrow> a)),
                 envMessageCount = Some (messageCount s + 1), envTimestamp = now,
                 envVersion = Some ''xchacha20poly1305-1.0.0-padded''\<rparr>"
    using enc by (auto simp: encryptMessage_refPrims Let_def n_def padded_def)
  have p: "decodeBase64 refPrims = fromHex" "sha256 refPrims = refMac []"
    "encodeBase64 refPrims = bytesToHex"
    by (simp_all add: refPrims_def)
  have op: "secretbox_open refPrims (?k @ n @ padded) n ?k' = None"
    using secretbox_open_other_key[of ?k ?k' padded n n] ne
    by (simp add: length_refKey) (simp add: refPrims_def)
  show ?thesis
    using op unfolding decryptMessage_def e
    by (simp add: deriveKey_refPrims p fromHex_bytesToHex split: option.splits)
qed

lemma decrypt_same_salt:
  assumes enc: "encryptMessage refPrims m s opts now r = (Inr (e, s'), r')"
    and eq: "refKey (KeyString (chainKey s)) (''amix-msg-'' @ showInt (messageCount s))
               (snd (generatePadding (length (messageBytes m)) r)) =
             refKey (KeyString (chainKey s)) (''amix-msg-'' @ showInt (messageCount s)) rd"
    and short: "length (messageBytes m) < 255"
  shows "fst (decryptMessage refPrims e s opts rd) = Inr (messageBytes m)"
proof -
  let ?r1 = "snd (generatePadding (length (messageBytes m)) r)"
  let ?pad = "fst (generatePadding (length (messageBytes m)) r)"
  let ?k = "refKey (KeyString (chainKey s)) (''amix-msg-'' @ showInt (messageCount s)) ?r1"
  let ?k' = "refKey (KeyString (chainKey s)) (''amix-msg-'' @ showInt (messageCount s)) rd"
  let ?padded = "[of_nat (length ?pad) AND 0xFF, of_nat (length (messageBytes m))] @ messageBytes m @ ?pad"
  define n where "n = fst (generateRandomBytes 24 (\<lambda>i. ?r1 (i + 32 + 32)))"
  have e: "e = \<lparr>ciphertext = bytesToHex (?k @ n @ ?padded), nonce = bytesToHex n,
                 envAad = bytesToHex (refMac [] (case aad opts of None \<Rightarrow> [] | Some a \<Rightarrow> a)),
                 envMessageCount = Some (messageCount s + 1), envTimestamp = now,
                 envVersion = Some ''xchacha20poly1305-1.0.0-padded''\<rparr>"
    using enc short by (auto simp: encryptMessage_refPrims Let_def n_def)
  have p: "decodeBase64 refPrims = fromHex" "sha256 refPrims = refMac []"
    "encodeBase64 refPrims = bytesToHex"
    by (simp_all add: refPrims_def)
  have op: "secretbox_open refPrims (?k' @ n @ ?padded) n ?k' = Some ?padded"
    by (simp add: refPrims_def)
  have len: "unat (of_nat (length (messageBytes m)) :: byte) = length (messageBytes m)"
    using short by (intro of_nat_inverse) simp_all
  have up: "unpad ?padded = messageBytes m"
    using short by (simp add: unpad_def Let_def len slice_def)
  show ?thesis
    using eq op up unfolding decryptMessage_def e
    by (simp add: deriveKey_refPrims p fromHex_bytesToHex split: option.splits)
qed

lemmas eval_defs = refKey_def refMac_def byteAt_def upt_32 textEncode_def bytesToHex_def hexDigit_def
  keyBuffer_def

lemma demoSession_value:
  "demoSession =
     (Inr \<lparr>rootKey = ''76ffd6f560ebe6e7f20d0c0d0e0f101112131415161718191a1b1c1d1e1f2021'',
            chainKey = ''d0fba2ff40c3c4b9e02146474a4d505356595c5f6265686b6e7174777a7d8083'',
            ourPrivateKey = ''0305'', theirPublicKey = ''0951'', messageCount = 0,
            rsTimestamp = 0\<rparr>, \<lambda>i. rngA (i + 64))"
proof -
  have p: "decodeBase64 refPrims = fromHex" "encodeBase64 refPrims = bytesToHex"
    by (simp_all add: refPrims_def)
  show ?thesis
    by (simp add: demoSession_def createRatchetState_def p deriveKey_refPrims hexValue_simps
        add.assoc)
      (simp add: eval_defs rngA_def)
qed

text \<open>
  A message of exactly 255 bytes is not returned even with the same salt: its length byte
  is 255, which \<^verbatim>\<open>decryptMessage\<close> reads as the marker for a long message, and the
  padding length it then subtracts is the true one cut to a byte.
\<close>

lemma length_generatePadding_255: "length (fst (generatePadding 255 r)) = 769"
proof -
  have d: "r 0 mod 256 < 256" by simp
  then have "(int 255 + int (r 0 mod 256) + 1024 - 1) div 1024 = 1" by simp
  then show ?thesis
    by (simp add: generatePadding_def randomBelow_def generateRandomBytes_def MAX_PADDING_def
        MIN_PADDING_def MAX_MESSAGE_SIZE_def BLOCK_SIZE_def Let_def split_def)
qed

lemma unpad_255:
  assumes "length m = 255" "length pad = 769"
  shows "unpad ([of_nat (length pad) AND 0xFF, of_nat (length m)] @ m @ pad) = m @ take 768 pad"
  using assms by (simp add: unpad_def slice_def Let_def)

lemma decrypt_same_salt_255:
  assumes enc: "encryptMessage refPrims m s opts now r = (Inr (e, s'), r')"
    and eq: "refKey (KeyString (chainKey s)) (''amix-msg-'' @ showInt (messageCount s))
               (snd (generatePadding (length (messageBytes m)) r)) =
             refKey (KeyString (chainKey s)) (''amix-msg-'' @ showInt (messageCount s)) rd"
    and len: "length (messageBytes m) = 255"
  shows "fst (decryptMessage refPrims e s opts rd) =
           Inr (messageBytes m @ take 768 (fst (generatePadding 255 r)))"
proof -
  let ?r1 = "snd (generatePadding (length (messageBytes m)) r)"
  let ?pad = "fst (generatePadding (length (messageBytes m)) r)"
  let ?k = "refKey (KeyString (chainKey s)) (''amix-msg-'' @ showInt (messageCount s)) ?r1"
  let ?k' = "refKey (KeyString (chainKey s)) (''amix-msg-'' @ showInt (messageCount s)) rd"
  let ?padded = "[of_nat (length ?pad) AND 0xFF, of_nat (length (messageBytes m))] @ messageBytes m @ ?pad"
  define n where "n = fst (generateRandomBytes 24 (\<lambda>i. ?r1 (i + 32 + 32)))"
  have e: "e = \<lparr>ciphertext = bytesToHex (?k @ n @ ?padded), nonce = bytesToHex n,
                 envAad = bytesToHex (refMac [] (case aad opts of None \<Rightarrow> [] | Some a \<Rightarrow> a)),
                 envMessageCount = Some (messageCount s + 1), envTimestamp = now,
                 envVersion = Some ''xchacha20poly1305-1.0.0-padded''\<rparr>"
    using enc len by (auto simp: encryptMessage_refPrims Let_def n_def)
  have p: "decodeBase64 refPrims = fromHex" "sha256 refPrims = refMac []"
    "encodeBase64 refPrims = bytesToHex"
    by (simp_all add: refPrims_def)
  have op: "secretbox_open refPrims (?k' @ n @ ?padded) n ?k' = Some ?padded"
    by (simp add: refPrims_def)
  have up: "unpad ?padded = messageBytes m @ take 768 (fst (generatePadding 255 r))"
    using unpad_255[OF len, of ?pad] length_generatePadding_255[of r] len by simp
  show ?thesis
    using eq op up unfolding decryptMessage_def e
    by (simp add: deriveKey_refPrims p fromHex_bytesToHex split: option.splits)
qed

text \<open>
  Claim C1 on a concrete run.  A session is made by \<^verbatim>\<open>createRatchetState\<close>, the sender
  encrypts \<^verbatim>\<open>'hi'\<close>, and the receiver decrypts the envelope with a state equal to the
  sender's state before the call.  \<^verbatim>\<open>deriveKey\<close> salts the message key with fresh random
  bytes on each side, so the receiver's key is another one and \<^verbatim>\<open>decryptMessage\<close> throws,
  with the receiver's own randomness as well as with the sender's next draws.  (With the
  same salt and a message shorter than 255 bytes the text comes back, see
  \<open>decrypt_same_salt\<close>.)  And where \<^verbatim>\<open>addPadding\<close> is unbound, as in the sources at
  hand, \<^verbatim>\<open>encryptMessage\<close> throws before it produces any envelope.
\<close>

theorem roundtrip_fails_on_fresh_salt:
  "\<not> isl (fst demoSession) \<and> \<not> isl (fst demoSealed) \<and>
   fst (decryptMessage refPrims (fst (projr (fst demoSealed))) (projr (fst demoSession))
          demoOptions rngB) =
     Inl ''Message decryption failed: Decryption failed - invalid ciphertext or key'' \<and>
   fst (decryptMessage refPrims (fst (projr (fst demoSealed))) (projr (fst demoSession))
          demoOptions (snd demoSealed)) =
     Inl ''Message decryption failed: Decryption failed - invalid ciphertext or key'' \<and>
   fst (encryptMessage (refPrims\<lparr>addPadding := \<lambda>b. Inl ''addPadding is not defined''\<rparr>)
          (Text ''hi'') (projr (fst demoSession)) demoOptions 5 (snd demoSession)) =
     Inl ''addPadding is not defined''"
proof -
  let ?s = "projr (fst demoSession)"
  obtain e s' r' where enc:
    "encryptMessage refPrims (Text ''hi'') ?s demoOptions 5 (snd demoSession) = (Inr (e, s'), r')"
    by (simp add: encryptMessage_refPrims Let_def)
  have sealed: "demoSealed = (Inr (e, s'), r')" using enc by (simp add: demoSealed_def)
  have r': "r' = (\<lambda>i. rngA (i + 1175))"
    using enc
    by (auto simp: encryptMessage_refPrims Let_def demoSession_value generatePadding_def
        randomBelow_def generateRandomBytes_def messageBytes_def textEncode_def rngA_def
        MAX_PADDING_def MIN_PADDING_def MAX_MESSAGE_SIZE_def BLOCK_SIZE_def add.assoc split_def)
  have pad: "snd (generatePadding (length (messageBytes (Text ''hi''))) (snd demoSession)) =
     (\<lambda>i. rngA (i + 1087))"
    by (auto simp: demoSession_value generatePadding_def
        randomBelow_def generateRandomBytes_def messageBytes_def textEncode_def rngA_def
        MAX_PADDING_def MIN_PADDING_def MAX_MESSAGE_SIZE_def BLOCK_SIZE_def add.assoc split_def)
  have ne1: "refKey (KeyString (chainKey ?s)) (''amix-msg-'' @ showInt (messageCount ?s))
               (snd (generatePadding (length (messageBytes (Text ''hi''))) (snd demoSession))) \<noteq>
             refKey (KeyString (chainKey ?s)) (''amix-msg-'' @ showInt (messageCount ?s)) rngB"
    unfolding pad by (simp add: demoSession_value eval_defs rngA_def rngB_def showInt_def)
  have ne2: "refKey (KeyString (chainKey ?s)) (''amix-msg-'' @ showInt (messageCount ?s))
               (snd (generatePadding (length (messageBytes (Text ''hi''))) (snd demoSession))) \<noteq>
             refKey (KeyString (chainKey ?s)) (''amix-msg-'' @ showInt (messageCount ?s)) r'"
    unfolding pad r' by (simp add: demoSession_value eval_defs rngA_def showInt_def)
  have unbound:
    "fst (encryptMessage (refPrims\<lparr>addPadding := \<lambda>b. Inl ''addPadding is not defined''\<rparr>)
          (Text ''hi'') ?s demoOptions 5 (snd demoSession)) = Inl ''addPadding is not defined''"
    by (simp add: encryptMessage_def)
  show ?thesis
    using decrypt_other_salt[OF enc ne1] decrypt_other_salt[OF enc ne2] unbound
    by (simp add: sealed) (simp add: demoSession_value)
qed

text \<open>
  Claim C2 on a concrete run.  For two key pairs on which the key agreement itself gives
  both sides the same bytes, \<^verbatim>\<open>performKeyExchange\<close> returns different shared secrets to the
  two parties, because each call of \<^verbatim>\<open>deriveKey\<close> draws its own salt; with the same
  draws the two results are equal.
\<close>

theorem key_exchange_differs_per_salt:
  "bytesToHex (refPublic [3, 5]) = ''1bf3'' \<and> bytesToHex (refPublic [2, 4]) = ''0951'' \<and>
   box refPrims (refPublic [2, 4]) [3, 5] = box refPrims (refPublic [3, 5]) [2, 4] \<and>
   map_sum id sharedSecret (fst (performKeyExchange refPrims ''0951'' ''0305'' 5 rngA)) =
     Inr ''76ffd6f560f76ed1da0d0c0d0e0f101112131415161718191a1b1c1d1e1f2021'' \<and>
   map_sum id sharedSecret (fst (performKeyExchange refPrims ''1bf3'' ''0204'' 5 rngB)) =
     Inr ''7701d9f965fd75d9e31717191b1d1f21232527292b2d2f31333537393b3d3f41'' \<and>
   map_sum id sharedSecret (fst (performKeyExchange refPrims ''1bf3'' ''0204'' 5 rngA)) =
     Inr ''76ffd6f560f76ed1da0d0c0d0e0f101112131415161718191a1b1c1d1e1f2021''"
proof -
  have p: "decodeBase64 refPrims = fromHex" "encodeBase64 refPrims = bytesToHex"
    "box refPrims = (\<lambda>theirKey ourKey. Inr (map (\<lambda>(p, s). p ^ unat s) (zip theirKey ourKey)))"
    by (simp_all add: refPrims_def)
  have b: "box refPrims [9, 81] [3, 5] = Inr [217, 145]" "box refPrims [27, 243] [2, 4] = Inr [217, 145]"
    by (simp_all add: p)
  have pk: "refPublic [3, 5] = [27, 243]" "refPublic [2, 4] = [9, 81]"
    by (simp_all add: refPublic_def)
  have h: "bytesToHex [27, 243] = ''1bf3''" "bytesToHex [9, 81] = ''0951''"
    by (simp_all add: bytesToHex_def hexDigit_def)
  have k1: "performKeyExchange refPrims ''0951'' ''0305'' 5 r =
      (Inr \<lparr>sharedSecret = bytesToHex (refKey (KeyBytes [217, 145]) ''amix-x3dh'' r), kxTimestamp = 5\<rparr>,
       \<lambda>i. r (i + 32))" for r
    using b by (simp add: performKeyExchange_def p(1,2) hexValue_simps deriveKey_refPrims)
  have k2: "performKeyExchange refPrims ''1bf3'' ''0204'' 5 r =
      (Inr \<lparr>sharedSecret = bytesToHex (refKey (KeyBytes [217, 145]) ''amix-x3dh'' r), kxTimestamp = 5\<rparr>,
       \<lambda>i. r (i + 32))" for r
    using b by (simp add: performKeyExchange_def p(1,2) hexValue_simps deriveKey_refPrims)
  have v1: "bytesToHex (refKey (KeyBytes [217, 145]) ''amix-x3dh'' rngA) =
      ''76ffd6f560f76ed1da0d0c0d0e0f101112131415161718191a1b1c1d1e1f2021''"
    by (simp add: eval_defs rngA_def)
  have v2: "bytesToHex (refKey (KeyBytes [217, 145]) ''amix-x3dh'' rngB) =
      ''7701d9f965fd75d9e31717191b1d1f21232527292b2d2f31333537393b3d3f41''"
    by (simp add: eval_defs rngB_def)
  show ?thesis by (simp add: pk h b k1 k2 v1 v2)
qed

text \<open>
  Claim C3 on a concrete run.  \<^verbatim>\<open>generateSafetyNumber\<close> hashes the two keys in the order
  of its arguments, in the mobile and in the web client, so swapping the keys changes the
  safety number: with the small instance of the primitives, and with the SHA-256 digests
  of the two concatenations.
\<close>

theorem safety_number_depends_on_order:
  "generateSafetyNumber refPrims ''A'' ''B'' = Inr ''8385 0101 0101'' \<and>
   generateSafetyNumber refPrims ''B'' ''A'' = Inr ''8583 0101 0101'' \<and>
   generateSafetyNumberWeb refPrims ''A'' ''B'' = ''83850101'' \<and>
   generateSafetyNumberWeb refPrims ''B'' ''A'' = ''85830101'' \<and>
   generateSafetyNumber (refPrims\<lparr>digestString := sha256Table\<rparr>) ''A'' ''B'' =
     Inr ''3816 4FBD 1760'' \<and>
   generateSafetyNumber (refPrims\<lparr>digestString := sha256Table\<rparr>) ''B'' ''A'' =
     Inr ''296D 71A7 F66E''"
proof -
  have t: "generateSafetyNumber (refPrims\<lparr>digestString := sha256Table\<rparr>) ''A'' ''B'' =
      Inr ''3816 4FBD 1760''"
    "generateSafetyNumber (refPrims\<lparr>digestString := sha256Table\<rparr>) ''B'' ''A'' =
      Inr ''296D 71A7 F66E''"
    by (simp_all add: generateSafetyNumber_def sha256Table_def toUpperCase_def Let_def)
  have p: "digestString refPrims = (\<lambda>s. bytesToHex (refMac [] (textEncode s)))"
    "sha256 refPrims = refMac []"
    by (simp_all add: refPrims_def)
  have ab: "take 12 (bytesToHex (refMac [] (textEncode ''AB''))) = ''838501010101''"
    by (simp add: eval_defs)
  have ba: "take 12 (bytesToHex (refMac [] (textEncode ''BA''))) = ''858301010101''"
    by (simp add: eval_defs)
  have ab8: "take 8 (bytesToHex (refMac [] (textEncode ''AB''))) = ''83850101''"
    using arg_cong[OF ab, of "take 8"] by simp
  have ba8: "take 8 (bytesToHex (refMac [] (textEncode ''BA''))) = ''85830101''"
    using arg_cong[OF ba, of "take 8"] by simp
  have u: "toUpperCase ''8385 0101 0101'' = ''8385 0101 0101''"
    "toUpperCase ''8583 0101 0101'' = ''8583 0101 0101''"
    "toUpperCase ''83850101'' = ''83850101''" "toUpperCase ''85830101'' = ''85830101''"
    by (simp_all add: toUpperCase_def)
  have ne: "bytesToHex (refMac [] (textEncode ''AB'')) \<noteq> []" "bytesToHex (refMac [] (textEncode ''BA'')) \<noteq> []"
    using ab ba by auto
  have "generateSafetyNumber refPrims ''A'' ''B'' = Inr ''8385 0101 0101'' \<and>
   generateSafetyNumber refPrims ''B'' ''A'' = Inr ''8583 0101 0101'' \<and>
   generateSafetyNumberWeb refPrims ''A'' ''B'' = ''83850101'' \<and>
   generateSafetyNumberWeb refPrims ''B'' ''A'' = ''85830101''"
    using ab ba ab8 ba8 u ne
    by (simp add: generateSafetyNumber_def generateSafetyNumberWeb_def p Let_def)
  with t show ?thesis by (intro conjI) simp_all
qed

text \<open>
  Claim C8, as the code has it.  An envelope whose version is missing, empty, or neither
  \<^verbatim>\<open>'xchacha20poly1305-1.0.0'\<close> nor a string containing \<^verbatim>\<open>'padded'\<close> is rejected with
  \<^verbatim>\<open>Unsupported protocol version\<close> before any key is derived; and whenever
  \<^verbatim>\<open>decryptMessage\<close> returns a plaintext, the version was
  \<^verbatim>\<open>'xchacha20poly1305-1.0.0'\<close> or contained \<^verbatim>\<open>'padded'\<close>.
\<close>

theorem decryptMessage_version_gate:
  "((envVersion e = None \<or> envVersion e = Some [] \<or>
     (\<exists>v. envVersion e = Some v \<and> v \<noteq> ''xchacha20poly1305-1.0.0'' \<and> \<not> includesStr v ''padded''))
    \<longrightarrow> decryptMessage P e st opts r =
          (Inl ''Message decryption failed: Unsupported protocol version'', r)) \<and>
   (\<forall>m. fst (decryptMessage P e st opts r) = Inr m \<longrightarrow>
      (\<exists>v. envVersion e = Some v \<and> v \<noteq> [] \<and>
           (v = ''xchacha20poly1305-1.0.0'' \<or> includesStr v ''padded'')))"
proof (intro conjI impI allI)
  assume "envVersion e = None \<or> envVersion e = Some [] \<or>
     (\<exists>v. envVersion e = Some v \<and> v \<noteq> ''xchacha20poly1305-1.0.0'' \<and> \<not> includesStr v ''padded'')"
  then show "decryptMessage P e st opts r =
          (Inl ''Message decryption failed: Unsupported protocol version'', r)"
    by (auto simp: decryptMessage_def)
next
  fix m assume ok: "fst (decryptMessage P e st opts r) = Inr m"
  show "\<exists>v. envVersion e = Some v \<and> v \<noteq> [] \<and>
           (v = ''xchacha20poly1305-1.0.0'' \<or> includesStr v ''padded'')"
  proof (cases "envVersion e")
    case None
    then show ?thesis using ok by (simp add: decryptMessage_def)
  next
    case (Some v)
    then show ?thesis using ok by (auto simp: decryptMessage_def split: if_splits)
  qed
qed

theorem decryptMessage_version_gate_witness:
  "envVersion (bogusEnvelope\<lparr>envVersion := None\<rparr>) = None \<and>
   decryptMessage refPrims (bogusEnvelope\<lparr>envVersion := None\<rparr>) demoState demoOptions rngB =
     (Inl ''Message decryption failed: Unsupported protocol version'', rngB) \<and>
   envVersion (bogusEnvelope\<lparr>envVersion := Some ''xchacha20poly1305-2.0.0''\<rparr>) =
     Some ''xchacha20poly1305-2.0.0'' \<and>
   decryptMessage refPrims (bogusEnvelope\<lparr>envVersion := Some ''xchacha20poly1305-2.0.0''\<rparr>)
       demoState demoOptions rngB =
     (Inl ''Message decryption failed: Unsupported protocol version'', rngB)"
proof -
  have a: "envVersion (bogusEnvelope\<lparr>envVersion := None\<rparr>) = None" by simp
  have b: "envVersion (bogusEnvelope\<lparr>envVersion := Some ''xchacha20poly1305-2.0.0''\<rparr>) =
     Some ''xchacha20poly1305-2.0.0''" by simp
  have c: "''xchacha20poly1305-2.0.0'' \<noteq> ''xchacha20poly1305-1.0.0'' \<and>
     \<not> includesStr ''xchacha20poly1305-2.0.0'' ''padded''" by simp
  from decryptMessage_version_gate[of "bogusEnvelope\<lparr>envVersion := None\<rparr>" refPrims demoState
      demoOptions rngB] a
  have 1: "decryptMessage refPrims (bogusEnvelope\<lparr>envVersion := None\<rparr>) demoState demoOptions rngB =
     (Inl ''Message decryption failed: Unsupported protocol version'', rngB)" by blast
  from decryptMessage_version_gate[of "bogusEnvelope\<lparr>envVersion := Some ''xchacha20poly1305-2.0.0''\<rparr>"
      refPrims demoState demoOptions rngB] b c
  have 2: "decryptMessage refPrims (bogusEnvelope\<lparr>envVersion := Some ''xchacha20poly1305-2.0.0''\<rparr>)
       demoState demoOptions rngB =
     (Inl ''Message decryption failed: Unsupported protocol version'', rngB)" by blast
  from a b 1 2 show ?thesis by (intro conjI)
qed

text \<open>
  Claim C8 as stated fails: an envelope with the unknown version \<^verbatim>\<open>'v9-padded'\<close> passes
  the version test and is decrypted and unpadded.
\<close>

theorem unknown_padded_version_is_decrypted:
  "envVersion bogusEnvelope = Some ''v9-padded'' \<and>
   fst (decryptMessage refPrims bogusEnvelope demoState demoOptions rngB) = Inr [104, 105]"
proof -
  have p: "decodeBase64 refPrims = fromHex" "secretbox refPrims = (\<lambda>m n k. k @ n @ m)"
    by (simp_all add: refPrims_def)
  have op: "secretbox_open refPrims (k @ [9, 9] @ [0, 2, 104, 105]) [9, 9] k = Some [0, 2, 104, 105]" for k
    by (simp add: refPrims_def)
  have up: "unpad [0, 2, 104, 105] = [104, 105]"
    by (simp add: unpad_def slice_def)
  show ?thesis
    using op up
    by (simp add: bogusEnvelope_def decryptMessage_def demoState_def demoOptions_def
        deriveKey_refPrims p hexValue_simps fromHex_bytesToHex showInt_def)
qed

section \<open>Properties of the group sessions\<close>

declare showNat.simps [simp del]

lemma digitValue_digit: "d < 10 \<Longrightarrow> digitValue (''0123456789'' ! d) = Some d"
proof -
  have "\<forall>d \<in> set [0..<10]. digitValue (''0123456789'' ! d) = Some d"
    by (simp add: digitValue_def upt_rec[of _ "numeral _"] upt_rec[of 0])
  then show "d < 10 \<Longrightarrow> digitValue (''0123456789'' ! d) = Some d" by simp
qed

lemma digit_not_dot: "d < 10 \<Longrightarrow> ''0123456789'' ! d \<noteq> CHR ''.''"
proof -
  have "\<forall>d \<in> set [0..<10]. ''0123456789'' ! d \<noteq> CHR ''.''"
    by (simp add: upt_rec[of _ "numeral _"] upt_rec[of 0])
  then show "d < 10 \<Longrightarrow> ''0123456789'' ! d \<noteq> CHR ''.''" by simp
qed

lemma parseDigits_append:
  "parseDigits acc (xs @ ys) =
     (case parseDigits acc xs of None \<Rightarrow> None | Some a \<Rightarrow> parseDigits a ys)"
  by (induction xs arbitrary: acc) (simp_all split: option.splits)

lemma parseDigits_showNat: "parseDigits 0 (showNat n) = Some n"
proof (induction n rule: showNat.induct)
  case (1 n)
  show ?case
  proof (cases "n < 10")
    case True
    then show ?thesis by (subst showNat.simps) (simp add: digitValue_digit)
  next
    case False
    then have "parseDigits 0 (showNat (n div 10)) = Some (n div 10)" using "1.IH" by simp
    then show ?thesis using False
      by (subst showNat.simps) (simp add: parseDigits_append digitValue_digit)
  qed
qed

lemma showNat_no_dot: "CHR ''.'' \<notin> set (showNat n)"
proof (induction n rule: showNat.induct)
  case (1 n)
  show ?case
  proof (cases "n < 10")
    case True
    then show ?thesis using digit_not_dot[of n] by (subst showNat.simps) auto
  next
    case False
    then show ?thesis using "1.IH" digit_not_dot[of "n mod 10"]
      by (subst showNat.simps) auto
  qed
qed

lemma splitDots_plain: "CHR ''.'' \<notin> set p \<Longrightarrow> splitDots p = [p]"
  by (induction p) auto

lemma splitDots_segment:
  "CHR ''.'' \<notin> set p \<Longrightarrow> splitDots (p @ CHR ''.'' # rest) = p # splitDots rest"
  by (induction p) auto

lemma splitDots_joinWith:
  "ps \<noteq> [] \<Longrightarrow> \<forall>p \<in> set ps. CHR ''.'' \<notin> set p \<Longrightarrow> splitDots (joinWith ''.'' ps) = ps"
proof (induction ps)
  case Nil
  then show ?case by simp
next
  case (Cons p ps)
  show ?case
  proof (cases ps)
    case Nil
    then show ?thesis using Cons.prems by (simp add: splitDots_plain)
  next
    case (Cons q qs)
    then have "splitDots (joinWith ''.'' ps) = ps" using Cons.IH Cons.prems by simp
    then show ?thesis using Cons Cons.prems by (simp add: splitDots_segment)
  qed
qed

lemma exactDecimals_decimalNumbers: "exactDecimals decimalNumbers"
  by (simp add: exactDecimals_def decimalNumbers_def)

lemma incrementVersion_decimal:
  assumes N: "exactDecimals N"
    and parts: "map (parseDigits 0) (splitDots v) = map Some (ns @ [n])"
    and small: "\<forall>k \<in> set (ns @ [n]). k < 2 ^ 53"
  shows "incrementVersion N v = joinWith ''.'' (map showNat (ns @ [Suc n]))"
proof -
  let ?ss = "splitDots v"
  have "length (map (parseDigits 0) ?ss) = length (map Some (ns @ [n]))"
    using parts by simp
  then have len: "length ?ss = Suc (length ns)" by simp
  have read: "parseDigits 0 (?ss ! i) = Some ((ns @ [n]) ! i)" if "i < Suc (length ns)" for i
  proof -
    have "map (parseDigits 0) ?ss ! i = map Some (ns @ [n]) ! i" unfolding parts ..
    moreover have "map (parseDigits 0) ?ss ! i = parseDigits 0 (?ss ! i)"
      by (rule nth_map) (simp add: len that)
    moreover have "map Some (ns @ [n]) ! i = Some ((ns @ [n]) ! i)"
      by (rule nth_map) (simp add: that)
    ultimately show ?thesis by simp
  qed
  have each: "numString N (toNum N (?ss ! i)) = showNat (ns ! i)" if "i < length ns" for i
  proof -
    have "parseDigits 0 (?ss ! i) = Some (ns ! i)" using read[of i] that by (simp add: nth_append)
    moreover have "ns ! i < 2 ^ 53" using small that by simp
    ultimately show ?thesis using N unfolding exactDecimals_def by blast
  qed
  have final: "numString N (plusOne N (toNum N (?ss ! length ns))) = showNat (Suc n)"
  proof -
    have "parseDigits 0 (?ss ! length ns) = Some n" using read[of "length ns"] by simp
    moreover have "n < 2 ^ 53" using small by simp
    ultimately show ?thesis using N unfolding exactDecimals_def by blast
  qed
  have "map (numString N)
          ((map (toNum N) ?ss)[length ns := plusOne N (map (toNum N) ?ss ! length ns)]) =
        map showNat (ns @ [Suc n])"
  proof (rule nth_equalityI)
    show "length (map (numString N)
            ((map (toNum N) ?ss)[length ns := plusOne N (map (toNum N) ?ss ! length ns)])) =
          length (map showNat (ns @ [Suc n]))"
      by (simp add: len)
  next
    fix i
    assume "i < length (map (numString N)
            ((map (toNum N) ?ss)[length ns := plusOne N (map (toNum N) ?ss ! length ns)]))"
    then have i: "i < Suc (length ns)" by (simp add: len)
    show "map (numString N)
            ((map (toNum N) ?ss)[length ns := plusOne N (map (toNum N) ?ss ! length ns)]) ! i =
          map showNat (ns @ [Suc n]) ! i"
    proof (cases "i = length ns")
      case True
      then show ?thesis using final by (simp add: len nth_append)
    next
      case False
      then have "i < length ns" using i by simp
      then show ?thesis using each[of i] by (simp add: len nth_append)
    qed
  qed
  then show ?thesis by (simp add: incrementVersion_def Let_def len)
qed

lemma map_of_delete_key: "map_of (AList.delete k al) = (map_of al)(k := None)"
  by (rule delete_conv')

lemma demoVersion_next: "incrementVersion decimalNumbers ''1.0.9'' = ''1.0.10''"
  by (simp add: incrementVersion_def decimalNumbers_def digitValue_def
      showNat.simps upt_rec[of _ "numeral _"] upt_rec[of 0])

text \<open>
  Claim C4, as the code has it.  For a stored group in which the remover is an admin and
  the target is a member, \<^verbatim>\<open>removeMember\<close> succeeds: the target's entry is gone from the
  member table, the version has gone through \<^verbatim>\<open>_incrementVersion\<close> (for a version of
  dotted decimal numbers below \<open>2\<^sup>5\<^sup>3\<close> the last number is one higher and the others are
  the same), \<^verbatim>\<open>updatedAt\<close> is stamped and the rotation timer is armed again for the same
  \<^verbatim>\<open>nextKeyRotation\<close>; the encryption key pair and the stored ratchet sessions are what
  they were.  If the remover is not an admin, or the target is neither a member nor the
  name of a property that every object inherits, the call fails and the store is unchanged.
\<close>

theorem removeMember_effect:
  assumes g: "getGroup gid st = Some g"
  shows "((case map_of (members g) (userId remover) of None \<Rightarrow> False | Some m \<Rightarrow> isAdmin m) \<and>
          map_of (members g) mid \<noteq> None \<longrightarrow>
            \<not> isl (fst (removeMember N t1 t2 gid remover mid st)) \<and>
            map_of (members (projr (fst (removeMember N t1 t2 gid remover mid st)))) =
              (map_of (members g))(mid := None) \<and>
            gsVersion (projr (fst (removeMember N t1 t2 gid remover mid st))) =
              incrementVersion N (gsVersion g) \<and>
            (\<forall>ns n. exactDecimals N \<and>
                    map (parseDigits 0) (splitDots (gsVersion g)) = map Some (ns @ [n]) \<and>
                    (\<forall>k \<in> set (ns @ [n]). k < 2 ^ 53) \<longrightarrow>
               gsVersion (projr (fst (removeMember N t1 t2 gid remover mid st))) =
                 joinWith ''.'' (map showNat (ns @ [Suc n]))) \<and>
            gsUpdatedAt (projr (fst (removeMember N t1 t2 gid remover mid st))) = t1 \<and>
            rotationTimer (projr (fst (removeMember N t1 t2 gid remover mid st))) =
              Some (max 0 (nextKeyRotation g - t2)) \<and>
            nextKeyRotation (projr (fst (removeMember N t1 t2 gid remover mid st))) = nextKeyRotation g \<and>
            encryptionKeyPair (projr (fst (removeMember N t1 t2 gid remover mid st))) =
              encryptionKeyPair g \<and>
            ratchetStates (snd (removeMember N t1 t2 gid remover mid st)) = ratchetStates st \<and>
            getGroup (groupId g) (snd (removeMember N t1 t2 gid remover mid st)) =
              Some (projr (fst (removeMember N t1 t2 gid remover mid st)))) \<and>
         (\<not> (case map_of (members g) (userId remover) of None \<Rightarrow> False | Some m \<Rightarrow> isAdmin m) \<or>
          (map_of (members g) mid = None \<and> mid \<notin> set inheritedNames) \<longrightarrow>
            isl (fst (removeMember N t1 t2 gid remover mid st)) \<and>
            snd (removeMember N t1 t2 gid remover mid st) = st)"
proof (intro conjI impI)
  assume ok: "(case map_of (members g) (userId remover) of None \<Rightarrow> False | Some m \<Rightarrow> isAdmin m) \<and>
          map_of (members g) mid \<noteq> None"
  let ?g' = "scheduleKeyRotation t2
       (g\<lparr>members := AList.delete mid (members g),
          gsVersion := incrementVersion N (gsVersion g), gsUpdatedAt := t1\<rparr>)"
  have r: "removeMember N t1 t2 gid remover mid st = (Inr ?g', storeGroup ?g' st)"
    using g ok by (auto simp: removeMember_def getProperty_def Let_def split: option.splits)
  show "\<not> isl (fst (removeMember N t1 t2 gid remover mid st))" by (simp add: r)
  show "map_of (members (projr (fst (removeMember N t1 t2 gid remover mid st)))) =
              (map_of (members g))(mid := None)"
    by (simp add: r scheduleKeyRotation_def map_of_delete_key)
  show v: "gsVersion (projr (fst (removeMember N t1 t2 gid remover mid st))) =
              incrementVersion N (gsVersion g)"
    by (simp add: r scheduleKeyRotation_def)
  show "\<forall>ns n. exactDecimals N \<and>
                    map (parseDigits 0) (splitDots (gsVersion g)) = map Some (ns @ [n]) \<and>
                    (\<forall>k \<in> set (ns @ [n]). k < 2 ^ 53) \<longrightarrow>
               gsVersion (projr (fst (removeMember N t1 t2 gid remover mid st))) =
                 joinWith ''.'' (map showNat (ns @ [Suc n]))"
    unfolding v using incrementVersion_decimal by blast
  show "gsUpdatedAt (projr (fst (removeMember N t1 t2 gid remover mid st))) = t1"
    by (simp add: r scheduleKeyRotation_def)
  show "rotationTimer (projr (fst (removeMember N t1 t2 gid remover mid st))) =
              Some (max 0 (nextKeyRotation g - t2))"
    by (simp add: r scheduleKeyRotation_def)
  show "nextKeyRotation (projr (fst (removeMember N t1 t2 gid remover mid st))) = nextKeyRotation g"
    by (simp add: r scheduleKeyRotation_def)
  show "encryptionKeyPair (projr (fst (removeMember N t1 t2 gid remover mid st))) =
              encryptionKeyPair g"
    by (simp add: r scheduleKeyRotation_def)
  show "ratchetStates (snd (removeMember N t1 t2 gid remover mid st)) = ratchetStates st"
    by (simp add: r storeGroup_def)
  show "getGroup (groupId g) (snd (removeMember N t1 t2 gid remover mid st)) =
              Some (projr (fst (removeMember N t1 t2 gid remover mid st)))"
    by (simp add: r storeGroup_def getGroup_def scheduleKeyRotation_def update_conv')
next
  assume no: "\<not> (case map_of (members g) (userId remover) of None \<Rightarrow> False | Some m \<Rightarrow> isAdmin m) \<or>
          (map_of (members g) mid = None \<and> mid \<notin> set inheritedNames)"
  then show "isl (fst (removeMember N t1 t2 gid remover mid st))"
    using g by (auto simp: removeMember_def getProperty_def Let_def split: option.splits)
  show "snd (removeMember N t1 t2 gid remover mid st) = st"
    using g no by (auto simp: removeMember_def getProperty_def Let_def split: option.splits)
qed

theorem removeMember_effect_witness:
  "getGroup ''g1'' demoStore = Some demoGroup \<and>
   \<not> isl (fst (removeMember decimalNumbers 200 201 ''g1'' \<lparr>userId = ''alice''\<rparr> ''bob'' demoStore)) \<and>
   map_of (members (projr (fst (removeMember decimalNumbers 200 201 ''g1'' \<lparr>userId = ''alice''\<rparr> ''bob'' demoStore))))
     ''bob'' = None \<and>
   gsVersion demoGroup = ''1.0.9'' \<and>
   gsVersion (projr (fst (removeMember decimalNumbers 200 201 ''g1'' \<lparr>userId = ''alice''\<rparr> ''bob'' demoStore))) =
     ''1.0.10'' \<and>
   isl (fst (removeMember decimalNumbers 200 201 ''g1'' \<lparr>userId = ''bob''\<rparr> ''carol'' demoStore)) \<and>
   snd (removeMember decimalNumbers 200 201 ''g1'' \<lparr>userId = ''bob''\<rparr> ''carol'' demoStore) = demoStore \<and>
   isl (fst (removeMember decimalNumbers 200 201 ''g1'' \<lparr>userId = ''alice''\<rparr> ''dave'' demoStore)) \<and>
   snd (removeMember decimalNumbers 200 201 ''g1'' \<lparr>userId = ''alice''\<rparr> ''dave'' demoStore) = demoStore"
proof -
  have g: "getGroup ''g1'' demoStore = Some demoGroup"
    by (simp add: getGroup_def demoStore_def)
  have adm: "(case map_of (members demoGroup) (userId \<lparr>userId = ''alice''\<rparr>) of
               None \<Rightarrow> False | Some m \<Rightarrow> isAdmin m) \<and> map_of (members demoGroup) ''bob'' \<noteq> None"
    by (simp add: demoGroup_def demoMember_def)
  have nadm: "\<not> (case map_of (members demoGroup) (userId \<lparr>userId = ''bob''\<rparr>) of
               None \<Rightarrow> False | Some m \<Rightarrow> isAdmin m) \<or>
              (map_of (members demoGroup) ''carol'' = None \<and> ''carol'' \<notin> set inheritedNames)"
    by (simp add: demoGroup_def demoMember_def)
  have nmem: "\<not> (case map_of (members demoGroup) (userId \<lparr>userId = ''alice''\<rparr>) of
               None \<Rightarrow> False | Some m \<Rightarrow> isAdmin m) \<or>
              (map_of (members demoGroup) ''dave'' = None \<and> ''dave'' \<notin> set inheritedNames)"
    by (simp add: demoGroup_def demoMember_def inheritedNames_def)
  have ver: "gsVersion demoGroup = ''1.0.9''" by (simp add: demoGroup_def)
  have dec: "exactDecimals decimalNumbers \<and>
             map (parseDigits 0) (splitDots (gsVersion demoGroup)) = map Some ([1, 0] @ [9]) \<and>
             (\<forall>k \<in> set ([1, 0] @ [9 :: nat]). k < 2 ^ 53)"
    by (simp add: exactDecimals_decimalNumbers ver digitValue_def
        upt_rec[of _ "numeral _"] upt_rec[of 0])
  have shown: "joinWith ''.'' (map showNat ([1, 0] @ [Suc 9])) = ''1.0.10''"
    by (simp add: showNat.simps)
  note a = removeMember_effect[OF g, of "\<lparr>userId = ''alice''\<rparr>" "''bob''" decimalNumbers 200 201]
  note b = removeMember_effect[OF g, of "\<lparr>userId = ''bob''\<rparr>" "''carol''" decimalNumbers 200 201]
  note c = removeMember_effect[OF g, of "\<lparr>userId = ''alice''\<rparr>" "''dave''" decimalNumbers 200 201]
  from a adm have 1: "\<not> isl (fst (removeMember decimalNumbers 200 201 ''g1'' \<lparr>userId = ''alice''\<rparr> ''bob'' demoStore))"
    by blast
  from a adm have "map_of (members (projr (fst (removeMember decimalNumbers 200 201 ''g1'' \<lparr>userId = ''alice''\<rparr> ''bob'' demoStore)))) =
      (map_of (members demoGroup))(''bob'' := None)" by blast
  then have 2: "map_of (members (projr (fst (removeMember decimalNumbers 200 201 ''g1'' \<lparr>userId = ''alice''\<rparr> ''bob'' demoStore))))
     ''bob'' = None" by simp
  from a adm have "\<forall>ns n. exactDecimals decimalNumbers \<and>
                    map (parseDigits 0) (splitDots (gsVersion demoGroup)) = map Some (ns @ [n]) \<and>
                    (\<forall>k \<in> set (ns @ [n]). k < 2 ^ 53) \<longrightarrow>
               gsVersion (projr (fst (removeMember decimalNumbers 200 201 ''g1'' \<lparr>userId = ''alice''\<rparr> ''bob'' demoStore))) =
                 joinWith ''.'' (map showNat (ns @ [Suc n]))" by blast
  then have "gsVersion (projr (fst (removeMember decimalNumbers 200 201 ''g1'' \<lparr>userId = ''alice''\<rparr> ''bob'' demoStore))) =
      joinWith ''.'' (map showNat ([1, 0] @ [Suc 9]))" using dec by blast
  then have 3: "gsVersion (projr (fst (removeMember decimalNumbers 200 201 ''g1'' \<lparr>userId = ''alice''\<rparr> ''bob'' demoStore))) =
     ''1.0.10''" unfolding shown .
  from b nadm have 4: "isl (fst (removeMember decimalNumbers 200 201 ''g1'' \<lparr>userId = ''bob''\<rparr> ''carol'' demoStore))"
    and 5: "snd (removeMember decimalNumbers 200 201 ''g1'' \<lparr>userId = ''bob''\<rparr> ''carol'' demoStore) = demoStore"
    by blast+
  from c nmem have 6: "isl (fst (removeMember decimalNumbers 200 201 ''g1'' \<lparr>userId = ''alice''\<rparr> ''dave'' demoStore))"
    and 7: "snd (removeMember decimalNumbers 200 201 ''g1'' \<lparr>userId = ''alice''\<rparr> ''dave'' demoStore) = demoStore"
    by blast+
  from g 1 2 ver 3 4 5 6 7 show ?thesis by (intro conjI)
qed

text \<open>
  Claim C4 as stated fails.  When \<^verbatim>\<open>removeMember\<close> returns, the group still has the
  encryption key pair it had, and the sessions to and from the removed member are still
  in the store.  And a target that is not a member does not always make the call fail:
  for the id \<^verbatim>\<open>'toString'\<close> the membership test finds the inherited function, and the
  group is stored with a new version, time stamp and timer.
\<close>

theorem removeMember_keeps_keys_and_sessions:
  "encryptionKeyPair (projr (fst (removeMember decimalNumbers 200 201 ''g1'' \<lparr>userId = ''alice''\<rparr> ''bob'' demoStore))) =
     encryptionKeyPair demoGroup \<and>
   getRatchetState ''g1'' ''alice'' ''bob''
     (snd (removeMember decimalNumbers 200 201 ''g1'' \<lparr>userId = ''alice''\<rparr> ''bob'' demoStore)) = Some demoState \<and>
   getRatchetState ''g1'' ''bob'' ''alice''
     (snd (removeMember decimalNumbers 200 201 ''g1'' \<lparr>userId = ''alice''\<rparr> ''bob'' demoStore)) = Some demoState \<and>
   map_of (members demoGroup) ''toString'' = None \<and>
   removeMember decimalNumbers 200 201 ''g1'' \<lparr>userId = ''alice''\<rparr> ''toString'' demoStore =
     (Inr (demoGroup\<lparr>gsVersion := ''1.0.10'', gsUpdatedAt := 200, rotationTimer := Some 604799899\<rparr>),
      demoStore\<lparr>groups := [(''g1'', demoGroup\<lparr>gsVersion := ''1.0.10'', gsUpdatedAt := 200,
                                         rotationTimer := Some 604799899\<rparr>)]\<rparr>)"
proof (intro conjI)
  show "encryptionKeyPair (projr (fst (removeMember decimalNumbers 200 201 ''g1'' \<lparr>userId = ''alice''\<rparr> ''bob'' demoStore))) =
     encryptionKeyPair demoGroup"
    by (simp add: removeMember_def getProperty_def getGroup_def demoStore_def demoGroup_def
        demoMember_def Let_def scheduleKeyRotation_def storeGroup_def)
  show "getRatchetState ''g1'' ''alice'' ''bob''
     (snd (removeMember decimalNumbers 200 201 ''g1'' \<lparr>userId = ''alice''\<rparr> ''bob'' demoStore)) = Some demoState"
    by (simp add: removeMember_def getProperty_def getGroup_def demoStore_def demoGroup_def
        demoMember_def Let_def scheduleKeyRotation_def storeGroup_def getRatchetState_def)
  show "getRatchetState ''g1'' ''bob'' ''alice''
     (snd (removeMember decimalNumbers 200 201 ''g1'' \<lparr>userId = ''alice''\<rparr> ''bob'' demoStore)) = Some demoState"
    by (simp add: removeMember_def getProperty_def getGroup_def demoStore_def demoGroup_def
        demoMember_def Let_def scheduleKeyRotation_def storeGroup_def getRatchetState_def)
  show "map_of (members demoGroup) ''toString'' = None"
    by (simp add: demoGroup_def)
  have g: "getGroup ''g1'' demoStore = Some demoGroup"
    by (simp add: getGroup_def demoStore_def)
  have adm: "getProperty (members demoGroup) ''alice'' = Own (demoMember ''0305'' True)"
    by (simp add: getProperty_def demoGroup_def)
  have inh: "getProperty (members demoGroup) ''toString'' = Inherited ''toString''"
    by (simp add: getProperty_def demoGroup_def inheritedNames_def)
  have del: "AList.delete ''toString'' (members demoGroup) = members demoGroup"
    by (simp add: demoGroup_def)
  have ver: "incrementVersion decimalNumbers (gsVersion demoGroup) = ''1.0.10''"
    using demoVersion_next by (simp add: demoGroup_def)
  have nxt: "nextKeyRotation demoGroup = 604800100" "groupId demoGroup = ''g1''"
    by (simp_all add: demoGroup_def)
  have grp: "groups demoStore = [(''g1'', demoGroup)]"
    by (simp add: demoStore_def)
  show "removeMember decimalNumbers 200 201 ''g1'' \<lparr>userId = ''alice''\<rparr> ''toString'' demoStore =
     (Inr (demoGroup\<lparr>gsVersion := ''1.0.10'', gsUpdatedAt := 200, rotationTimer := Some 604799899\<rparr>),
      demoStore\<lparr>groups := [(''g1'', demoGroup\<lparr>gsVersion := ''1.0.10'', gsUpdatedAt := 200,
                                         rotationTimer := Some 604799899\<rparr>)]\<rparr>)"
    by (simp add: removeMember_def g adm inh del ver nxt grp demoMember_def Let_def
        scheduleKeyRotation_def storeGroup_def)
qed

lemma missing_session_not_recovered:
  assumes "getGroup gid (wStore w) = Some g"
    and "find (\<lambda>entry. fst entry = rid) (encryptedMessages msg) = Some entry"
    and "getRatchetState gid (gmSenderId msg) rid (wStore w) = None"
  shows "decryptGroupMessage P J now gid msg rid opts w =
           Some (Inl ''No active session with sender'', w)"
proof -
  have a: "decryptAttempt P J gid msg rid opts w = (Inl ''No active session with sender'', w)"
    using assms by (simp add: decryptAttempt_def)
  have n: "\<not> includesStr ''No active session with sender'' ''ratchet state not found''"
    by simp
  show ?thesis
    by (subst decryptGroupMessage.simps) (simp add: a n del: includesStr.simps)
qed

text \<open>
  Claim C7 on a concrete run.  The group and the envelope for the recipient exist, the
  store has no session for the (sender, recipient) pair.  \<^verbatim>\<open>decryptGroupMessage\<close> throws
  \<^verbatim>\<open>No active session with sender\<close>; that message does not contain
  \<^verbatim>\<open>'ratchet state not found'\<close>, so \<^verbatim>\<open>_recoverRatchetState\<close> is never called and nothing
  is retried.
\<close>

theorem missing_session_surfaces_without_recovery:
  "getRatchetState ''g1'' ''alice'' ''carol'' (wStore demoWorld) = None \<and>
   decryptGroupMessage refPrims demoJson 400 ''g1'' demoGroupMessage ''carol'' demoGroupOptions
       demoWorld =
     Some (Inl ''No active session with sender'', demoWorld) \<and>
   wRecoveries demoWorld = 0"
proof -
  have g: "getGroup ''g1'' (wStore demoWorld) = Some demoGroup"
    by (simp add: demoWorld_def demoStore_def getGroup_def)
  have f: "find (\<lambda>entry. fst entry = ''carol'') (encryptedMessages demoGroupMessage) =
             Some (''carol'', bogusEnvelope)"
    by (simp add: demoGroupMessage_def)
  have s: "getRatchetState ''g1'' (gmSenderId demoGroupMessage) ''carol'' (wStore demoWorld) = None"
    by (simp add: demoWorld_def demoStore_def getRatchetState_def demoGroupMessage_def)
  have s': "getRatchetState ''g1'' ''alice'' ''carol'' (wStore demoWorld) = None"
    using s by (simp add: demoGroupMessage_def)
  show ?thesis
    using missing_session_not_recovered[OF g f s] s' by (simp add: demoWorld_def)
qed

end
